theory Spec2Isabelle
  imports Complex_Main "HOL-Library.AList"
begin

section \<open>Python values shared by the components\<close>

text \<open>
  The program is Python glue around four services (the source-control host, the
  embedding model, the vector index and the chat model). Each service is a parameter of
  the function that calls it; what the code sends to a service is kept in a log of calls,
  so that "no network call" is a statement about that log.

  Timestamps are Python floats holding seconds since the epoch; the model takes them as
  reals, since the code only subtracts a constant from one and compares two of them.
\<close>

type_synonym timestamp = real
type_synonym vector = "real list"

text \<open>Values whose Python type the code leaves open: a tool's arguments and return value.\<close>

datatype py_value =
    PyNone
  | PyStr string
  | PyList "py_value list"
  | PyDict "(string \<times> py_value) list"

datatype py_error =
    IndexError | KeyError | TypeError | AttributeError | ValueError | ToolError string

text \<open>\<^verbatim>\<open>s.split(sep)\<close> for a one-character separator, scanning left to right with
  the piece read so far: the result is never empty and has one more piece than there are
  separators.\<close>

fun split_from :: "char \<Rightarrow> string \<Rightarrow> string \<Rightarrow> string list" where
  "split_from sep cur [] = [cur]"
| "split_from sep cur (c # cs) =
     (if c = sep then cur # split_from sep [] cs else split_from sep (cur @ [c]) cs)"

definition py_split :: "char \<Rightarrow> string \<Rightarrow> string list" where
  "py_split sep s = split_from sep [] s"

text \<open>An optional text inside an f-string: \<^verbatim>\<open>None\<close> prints as the word None.\<close>

fun fmt_opt :: "string option \<Rightarrow> string" where
  "fmt_opt None = ''None''"
| "fmt_opt (Some s) = s"

section \<open>Embedding Indexer (class Embedder)\<close>

text \<open>The dict built by \<^verbatim>\<open>fetch_recent_prs\<close> for one merged pull request.\<close>

record pr_details =
  det_id :: int
  det_title :: string
  det_state :: string
  det_description :: "string option"
  det_updated_at :: timestamp
  det_url :: string
  det_merge_description :: string

record metadata =
  meta_title :: string
  meta_state :: string
  meta_updated_at :: timestamp
  meta_url :: string

type_synonym embedding = "string \<times> vector \<times> metadata"

text \<open>The three values the loop of \<^verbatim>\<open>embed_pr_data\<close> computes for one record.\<close>

definition pr_id_of :: "pr_details \<Rightarrow> string" where
  "pr_id_of pr = last (py_split CHR ''/'' (det_url pr))"

definition text_to_embed :: "pr_details \<Rightarrow> string" where
  "text_to_embed pr =
     ''Title: '' @ det_title pr @ ''. Description: '' @ fmt_opt (det_description pr)
       @ ''. Merge Description: '' @ det_merge_description pr @ ''.''"

definition metadata_of :: "pr_details \<Rightarrow> metadata" where
  "metadata_of pr =
     \<lparr>meta_title = det_title pr, meta_state = det_state pr,
      meta_updated_at = det_updated_at pr, meta_url = det_url pr\<rparr>"

text \<open>\<^verbatim>\<open>embed_pr_data\<close>; \<open>embed_documents\<close> is the embedding service. Python's
  \<^verbatim>\<open>zip\<close> of three lists stops at the shortest, as the nested \<open>zip\<close> does.\<close>

definition embed_pr_data ::
  "(string list \<Rightarrow> vector list) \<Rightarrow> pr_details list \<Rightarrow> embedding list" where
  "embed_pr_data embed_documents pr_data_list =
     (if pr_data_list = [] then []
      else
        let ids = map pr_id_of pr_data_list;
            texts = map text_to_embed pr_data_list;
            metadatas = map metadata_of pr_data_list;
            embeddings_list = embed_documents texts
        in zip ids (zip embeddings_list metadatas))"

text \<open>The vector index client: the index names the service lists, and the calls issued.\<close>

datatype pc_call =
    ListIndexes
  | CreateIndex string nat string string string
  | IndexUpsert string "embedding list"

record pinecone =
  pc_index_names :: "string list"
  pc_calls :: "pc_call list"

definition upsert_to_pinecone :: "pinecone \<Rightarrow> embedding list \<Rightarrow> string \<Rightarrow> pinecone" where
  "upsert_to_pinecone pc vectors index_name =
     (if vectors = [] then pc
      else
        let pc1 = pc\<lparr>pc_calls := pc_calls pc @ [ListIndexes]\<rparr>;
            existing_index = pc_index_names pc1;
            pc2 = (if index_name \<notin> set existing_index
                   then pc1\<lparr>pc_index_names := pc_index_names pc1 @ [index_name],
                            pc_calls := pc_calls pc1
                              @ [CreateIndex index_name 1024 ''cosine'' ''aws'' ''us-east-1'']\<rparr>
                   else pc1)
        in pc2\<lparr>pc_calls := pc_calls pc2 @ [IndexUpsert index_name vectors]\<rparr>)"

section \<open>Change Collector (Embedder.fetch_recent_prs)\<close>

text \<open>One pull request object of the host's list response, with the keys the code reads.
  \<^verbatim>\<open>body\<close>, \<^verbatim>\<open>merged_at\<close> and \<^verbatim>\<open>merge_commit_sha\<close> may be JSON null.\<close>

record pull =
  pr_id :: int
  pr_title :: string
  pr_body :: "string option"
  pr_state :: string
  pr_updated_at :: string
  pr_html_url :: string
  pr_merged_at :: "string option"
  pr_merge_commit_sha :: "string option"

text \<open>The list request: the URL and the three query parameters.\<close>

record list_request =
  req_url :: string
  req_state :: string
  req_per_page :: nat
  req_page :: nat

record response =
  status_code :: nat
  json :: "pull list"

datatype http_call = ListPulls list_request | GetCommit string | GetDiff string

text \<open>The host: the list endpoint, the commit endpoint (the outer option is the key
  \<^verbatim>\<open>commit\<close> of the answer, the inner one its key \<^verbatim>\<open>message\<close>) and the body text of
  a plain GET.\<close>

record host =
  list_pulls :: "list_request \<Rightarrow> response"
  get_commit :: "string \<Rightarrow> string option option"
  get_text :: "string \<Rightarrow> string"

text \<open>The clock and the two library conversions the collector uses:
  \<^verbatim>\<open>datetime.isoformat\<close> and \<^verbatim>\<open>strptime(...).timestamp()\<close>, which raises
  \<^verbatim>\<open>ValueError\<close> on a text of another format.\<close>

record clock =
  clk_now :: timestamp
  isoformat :: "timestamp \<Rightarrow> string"
  strptime_timestamp :: "string \<Rightarrow> py_error + timestamp"

text \<open>Python's \<^verbatim>\<open>a >= b\<close> on strings: lexicographic on code points, a proper prefix
  being smaller.\<close>

fun str_ge :: "string \<Rightarrow> string \<Rightarrow> bool" where
  "str_ge a [] = True"
| "str_ge [] (y # ys) = False"
| "str_ge (x # xs) (y # ys) =
     (if (of_char x :: nat) > of_char y then True
      else if (of_char x :: nat) < of_char y then False
      else str_ge xs ys)"

definition is_recent :: "string \<Rightarrow> pull \<Rightarrow> bool" where
  "is_recent recency_str pr = str_ge (pr_updated_at pr) recency_str"

text \<open>\<^verbatim>\<open>if pr.get('merged_at')\<close>: null and the empty text are both false.\<close>

definition is_merged :: "pull \<Rightarrow> bool" where
  "is_merged pr = (case pr_merged_at pr of None \<Rightarrow> False | Some s \<Rightarrow> s \<noteq> [])"

text \<open>How the \<^verbatim>\<open>while True\<close> loop is left: by \<^verbatim>\<open>return []\<close> or by
  \<^verbatim>\<open>break\<close> with the records collected so far.\<close>

datatype loop_exit = Aborted | Finished "pull list"

definition page_request :: "string \<Rightarrow> nat \<Rightarrow> list_request" where
  "page_request pr_url page =
     \<lparr>req_url = pr_url, req_state = ''all'', req_per_page = 100, req_page = page\<rparr>"

text \<open>The pagination loop. Nothing in the code bounds it, so it is a partial function:
  \<open>None\<close> is a run that never leaves the loop.\<close>

partial_function (option) fetch_pages ::
  "(list_request \<Rightarrow> response) \<Rightarrow> string \<Rightarrow> string \<Rightarrow> nat \<Rightarrow> pull list \<Rightarrow> http_call list
     \<Rightarrow> (loop_exit \<times> http_call list) option" where
  "fetch_pages get pr_url recency_str page all_recent_prs calls =
     (if status_code (get (page_request pr_url page)) \<noteq> 200
      then Some (Aborted, calls @ [ListPulls (page_request pr_url page)])
      else if filter (is_recent recency_str) (json (get (page_request pr_url page))) = []
      then Some (Finished all_recent_prs, calls @ [ListPulls (page_request pr_url page)])
      else fetch_pages get pr_url recency_str (page + 1)
             (all_recent_prs
                @ filter (is_recent recency_str) (json (get (page_request pr_url page))))
             (calls @ [ListPulls (page_request pr_url page)]))"

fun merge_message :: "string option option \<Rightarrow> string" where
  "merge_message (Some (Some m)) = m"
| "merge_message _ = []"

definition commit_url_of :: "string \<Rightarrow> string \<Rightarrow> pull \<Rightarrow> string" where
  "commit_url_of owner repo pr =
     ''https://api.github.com/repos/'' @ owner @ ''/'' @ repo @ ''/commits/''
       @ fmt_opt (pr_merge_commit_sha pr)"

text \<open>The second loop: one record per merged pull request, with the commit request.\<close>

fun details_loop ::
  "host \<Rightarrow> clock \<Rightarrow> string \<Rightarrow> string \<Rightarrow> pull list \<Rightarrow> pr_details list \<Rightarrow> http_call list
     \<Rightarrow> (py_error + pr_details list) \<times> http_call list" where
  "details_loop h c owner repo [] all_prs calls = (Inr all_prs, calls)"
| "details_loop h c owner repo (pr # rest) all_prs calls =
     (if is_merged pr then
        (case strptime_timestamp c (pr_updated_at pr) of
           Inl e \<Rightarrow> (Inl e, calls)
         | Inr ts \<Rightarrow>
             details_loop h c owner repo rest
               (all_prs @
                  [\<lparr>det_id = pr_id pr, det_title = pr_title pr, det_state = pr_state pr,
                    det_description = pr_body pr, det_updated_at = ts,
                    det_url = pr_html_url pr,
                    det_merge_description =
                      merge_message (get_commit h (commit_url_of owner repo pr))\<rparr>])
               (calls @ [GetCommit (commit_url_of owner repo pr)]))
      else details_loop h c owner repo rest all_prs calls)"

definition pulls_url :: "string \<Rightarrow> string \<Rightarrow> string" where
  "pulls_url owner repo = ''https://api.github.com/repos/'' @ owner @ ''/'' @ repo @ ''/pulls''"

definition recency_str_of :: "clock \<Rightarrow> int \<Rightarrow> string" where
  "recency_str_of c hours_ago =
     isoformat c (clk_now c - 3600 * real_of_int hours_ago) @ ''Z''"

definition fetch_recent_prs ::
  "host \<Rightarrow> clock \<Rightarrow> string \<Rightarrow> string \<Rightarrow> int
     \<Rightarrow> ((py_error + pr_details list) \<times> http_call list) option" where
  "fetch_recent_prs h c owner repo hours_ago =
     (case fetch_pages (list_pulls h) (pulls_url owner repo) (recency_str_of c hours_ago) 1 [] [] of
        None \<Rightarrow> None
      | Some (Aborted, calls) \<Rightarrow> Some (Inr [], calls)
      | Some (Finished all_recent_prs, calls) \<Rightarrow>
          Some (details_loop h c owner repo all_recent_prs [] calls))"

section \<open>Similarity Retriever and Diff Fetcher (class Retriever)\<close>

text \<open>The filter argument of the index query is a dict of field name to a dict of
  operator to number; \<open>filter_holds\<close> is the meaning the index service gives it for the one
  numeric field of the stored metadata and the operator \<^verbatim>\<open>$gte\<close>.\<close>

type_synonym metadata_filter = "(string \<times> (string \<times> timestamp) list) list"

record query_request =
  q_vector :: vector
  q_top_k :: int
  q_include_metadata :: bool
  q_filter :: metadata_filter

record match =
  match_id :: string
  match_score :: real
  match_metadata :: metadata

definition numeric_field :: "metadata \<Rightarrow> string \<Rightarrow> timestamp option" where
  "numeric_field md field = (if field = ''updated_at'' then Some (meta_updated_at md) else None)"

definition condition_holds :: "timestamp option \<Rightarrow> string \<times> timestamp \<Rightarrow> bool" where
  "condition_holds v cond =
     (case v of None \<Rightarrow> False | Some x \<Rightarrow> fst cond = ''$gte'' \<and> snd cond \<le> x)"

definition filter_holds :: "metadata_filter \<Rightarrow> metadata \<Rightarrow> bool" where
  "filter_holds flt md =
     list_all (\<lambda>(field, conds). list_all (condition_holds (numeric_field md field)) conds) flt"

text \<open>An index service filters on the server side when every match it returns satisfies
  the filter of the request.\<close>

definition server_side_filter :: "(string \<Rightarrow> query_request \<Rightarrow> match list) \<Rightarrow> bool" where
  "server_side_filter index_query =
     (\<forall>name q. list_all (\<lambda>m. filter_holds (q_filter q) (match_metadata m)) (index_query name q))"

text \<open>\<^verbatim>\<open>semantic_search\<close>: \<open>now\<close> is the clock at the call, \<open>embed_query\<close> the
  embedding service, \<open>index_query\<close> the query operation of the vector index.\<close>

definition semantic_search ::
  "timestamp \<Rightarrow> (string \<Rightarrow> vector) \<Rightarrow> (string \<Rightarrow> query_request \<Rightarrow> match list)
     \<Rightarrow> string \<Rightarrow> string \<Rightarrow> int \<Rightarrow> match list" where
  "semantic_search now embed_query index_query issue_description index_name top_k =
     (let cutoff_time = now - 12 * 3600;
          query_embedding = embed_query issue_description
      in index_query index_name
           \<lparr>q_vector = query_embedding, q_top_k = top_k, q_include_metadata = True,
            q_filter = [(''updated_at'', [(''$gte'', cutoff_time)])]\<rparr>)"

definition diff_url :: "string \<Rightarrow> string \<Rightarrow> string \<Rightarrow> string" where
  "diff_url owner repo pid =
     ''https://github.com/'' @ owner @ ''/'' @ repo @ ''/pull/'' @ pid @ ''.diff''"

text \<open>The loop of \<^verbatim>\<open>get_diffs\<close>: \<^verbatim>\<open>diffs[pr_id] = ...\<close> overwrites an id already
  present and keeps its place, as \<open>AList.update\<close> does.\<close>

fun get_diffs_loop ::
  "(string \<Rightarrow> string) \<Rightarrow> string \<Rightarrow> string \<Rightarrow> string list \<Rightarrow> (string \<times> py_value) list
     \<Rightarrow> http_call list \<Rightarrow> (string \<times> py_value) list \<times> http_call list" where
  "get_diffs_loop get owner repo [] diff_by_id calls = (diff_by_id, calls)"
| "get_diffs_loop get owner repo (pid # rest) diff_by_id calls =
     get_diffs_loop get owner repo rest
       (AList.update pid (PyStr (get (diff_url owner repo pid))) diff_by_id)
       (calls @ [GetDiff (diff_url owner repo pid)])"

text \<open>\<^verbatim>\<open>get_diffs\<close> returns the list \<^verbatim>\<open>[]\<close> for no ids and a dict otherwise.\<close>

definition get_diffs ::
  "(string \<Rightarrow> string) \<Rightarrow> string \<Rightarrow> string \<Rightarrow> string list \<Rightarrow> py_value \<times> http_call list" where
  "get_diffs get owner repo pr_ids =
     (if pr_ids = [] then (PyList [], [])
      else case get_diffs_loop get owner repo pr_ids [] [] of
             (diff_by_id, calls) \<Rightarrow> (PyDict diff_by_id, calls))"

section \<open>Relevance Reasoner (the tool find_relevant_diffs)\<close>

datatype message =
    SystemMessage string
  | HumanMessage string
  | AIMessage string "(string \<times> py_value \<times> string) list"
  | ToolMessage string string string

text \<open>\<^verbatim>\<open>str(v)\<close>: a string is itself; the text of a list or dict is left to \<open>repr\<close>.\<close>

definition py_str :: "(py_value \<Rightarrow> string) \<Rightarrow> py_value \<Rightarrow> string" where
  "py_str repr v = (case v of PyStr s \<Rightarrow> s | _ \<Rightarrow> repr v)"

text \<open>\<^verbatim>\<open>diffs[key]\<close> with a string key.\<close>

definition subscript :: "py_value \<Rightarrow> string \<Rightarrow> py_error + py_value" where
  "subscript v key =
     (case v of
        PyDict d \<Rightarrow> (case map_of d key of None \<Rightarrow> Inl KeyError | Some x \<Rightarrow> Inr x)
      | _ \<Rightarrow> Inl TypeError)"

text \<open>The dict comprehension \<^verbatim>\<open>diffs_with_metadata\<close> over the (id, url) pairs.\<close>

fun with_metadata ::
  "py_value \<Rightarrow> (string \<times> string) list \<Rightarrow> (string \<times> py_value) list
     \<Rightarrow> py_error + (string \<times> py_value) list" where
  "with_metadata diff_by_id [] acc = Inr acc"
| "with_metadata diff_by_id ((pid, url) # prs) acc =
     (case subscript diff_by_id pid of
        Inl e \<Rightarrow> Inl e
      | Inr d \<Rightarrow>
          with_metadata diff_by_id prs
            (AList.update pid (PyDict [(''url'', PyStr url), (''diff'', d)]) acc))"

definition nl :: string where
  "nl = [CHR 0x0A]"

definition judge_system :: string where
  "judge_system =
      '''' @ nl @
      ''        You are a professional software engineer that can read code and understand the changes made in a PR.'' @ nl @
      ''        You will be given a list of PRs and their diffs, and an issue description.'' @ nl @
      ''        Your job is to find the PR that is most relevant to the issue description.'' @ nl @
      ''        You will output the PR id and url of the most relevant PR with a description of the changes made in the PR.'' @ nl @
      ''        Do not suggest any fixes, just the PR id and the description of the changes found within.'' @ nl @
      ''        For the description of changes, denote which lines each significant change is on.'' @ nl @
      ''        ''"

definition judge_human_intro :: string where
  "judge_human_intro =
      '''' @ nl @
      ''        Here are the PRs most likely to have caused the issue, in the form of a dictionary with the PR id as the key and the diff as the value:'' @ nl @
      ''        ''"

definition judge_human_question :: string where
  "judge_human_question =
      '''' @ nl @
      ''        '' @ nl @
      ''        Which code PR is most relevant to the issue description: ''"

definition judge_human_end :: string where
  "judge_human_end =
      ''?'' @ nl @
      ''        ''"

text \<open>The services the tool reaches through the module-level retriever and the chat
  model; \<open>chat_invoke\<close> gives the content of the model's answer.\<close>

record services =
  srv_now :: timestamp
  srv_embed_query :: "string \<Rightarrow> vector"
  srv_index_query :: "string \<Rightarrow> query_request \<Rightarrow> match list"
  srv_get :: "string \<Rightarrow> string"
  srv_chat_invoke :: "message list \<Rightarrow> string"
  srv_repr :: "py_value \<Rightarrow> string"

definition find_relevant_diffs ::
  "services \<Rightarrow> string \<Rightarrow> (py_error + py_value) \<times> http_call list" where
  "find_relevant_diffs s issue_description =
     (let search_results =
            semantic_search (srv_now s) (srv_embed_query s) (srv_index_query s)
              issue_description ''rootly'' 5;
          prs = map (\<lambda>result. (match_id result, meta_url (match_metadata result))) search_results;
          pr_ids = map fst prs
      in case get_diffs (srv_get s) ''ethanbailie'' ''agentic_code_observer'' pr_ids of
           (diff_by_id, calls) \<Rightarrow>
             (case with_metadata diff_by_id prs [] of
                Inl e \<Rightarrow> (Inl e, calls)
              | Inr diffs_with_metadata \<Rightarrow>
                  (Inr (PyDict
                     [(''messages'',
                       PyList [PyStr (srv_chat_invoke s
                         [SystemMessage judge_system,
                          HumanMessage
                            (judge_human_intro @ py_str (srv_repr s) (PyDict diffs_with_metadata)
                               @ judge_human_question @ issue_description
                               @ judge_human_end)])])]),
                   calls)))"

section \<open>Diagnostic Agent (class Agent)\<close>

text \<open>A tool call is the triple of name, arguments and id of an \<open>AIMessage\<close>. A tool
  either returns a value or raises. The agent keeps its tools by name.\<close>

type_synonym tool_call = "string \<times> py_value \<times> string"

definition tc_name :: "tool_call \<Rightarrow> string" where
  "tc_name t = fst t"

definition tc_args :: "tool_call \<Rightarrow> py_value" where
  "tc_args t = fst (snd t)"

definition tc_id :: "tool_call \<Rightarrow> string" where
  "tc_id t = snd (snd t)"

record agent =
  agent_system :: string
  agent_tools :: "string \<rightharpoonup> (py_value \<Rightarrow> py_error + py_value)"
  agent_model :: "message list \<Rightarrow> message"
  agent_repr :: "py_value \<Rightarrow> string"

text \<open>\<^verbatim>\<open>state['messages'][-1].tool_calls\<close>: only an \<open>AIMessage\<close> has the attribute.\<close>

definition last_tool_calls :: "message list \<Rightarrow> py_error + tool_call list" where
  "last_tool_calls messages =
     (if messages = [] then Inl IndexError
      else case last messages of
             AIMessage content tool_calls \<Rightarrow> Inr tool_calls
           | _ \<Rightarrow> Inl AttributeError)"

definition exists_action :: "message list \<Rightarrow> py_error + bool" where
  "exists_action messages =
     (case last_tool_calls messages of
        Inl e \<Rightarrow> Inl e
      | Inr tool_calls \<Rightarrow> Inr (length tool_calls > 0))"

definition call_llm :: "agent \<Rightarrow> message list \<Rightarrow> message list" where
  "call_llm a messages =
     [agent_model a
        (if agent_system a \<noteq> [] then [SystemMessage (agent_system a)] @ messages
         else messages)]"

text \<open>The loop of \<^verbatim>\<open>take_action\<close>, with the tool messages built so far and the calls
  that reached a tool.\<close>

fun run_tool_calls ::
  "agent \<Rightarrow> tool_call list \<Rightarrow> message list \<Rightarrow> (string \<times> py_value) list
     \<Rightarrow> py_error + (message list \<times> (string \<times> py_value) list)" where
  "run_tool_calls a [] results invoked = Inr (results, invoked)"
| "run_tool_calls a (t # ts) results invoked =
     (case agent_tools a (tc_name t) of
        None \<Rightarrow>
          run_tool_calls a ts
            (results @ [ToolMessage (tc_id t) (tc_name t)
                          (py_str (agent_repr a) (PyStr ''bad tool name, retry''))])
            invoked
      | Some tool \<Rightarrow>
          (case tool (tc_args t) of
             Inl e \<Rightarrow> Inl e
           | Inr result \<Rightarrow>
               run_tool_calls a ts
                 (results @ [ToolMessage (tc_id t) (tc_name t) (py_str (agent_repr a) result)])
                 (invoked @ [(tc_name t, tc_args t)])))"

definition take_action ::
  "agent \<Rightarrow> message list \<Rightarrow> py_error + (message list \<times> (string \<times> py_value) list)" where
  "take_action a messages =
     (case last_tool_calls messages of
        Inl e \<Rightarrow> Inl e
      | Inr tool_calls \<Rightarrow> run_tool_calls a tool_calls [] [])"

text \<open>The graph: entry point \<open>Llm\<close>, a conditional edge from \<open>Llm\<close> to \<open>Action\<close> or
  \<open>End\<close>, an edge from \<open>Action\<close> back to \<open>Llm\<close>. What a node returns is appended to
  the messages of the state (the reducer is \<^verbatim>\<open>operator.add\<close>).\<close>

datatype node = Llm | Action | End

record run_state =
  at_node :: node
  messages :: "message list"
  tools_invoked :: "(string \<times> py_value) list"

definition graph_step :: "agent \<Rightarrow> run_state \<Rightarrow> py_error + run_state" where
  "graph_step a st =
     (case at_node st of
        Llm \<Rightarrow>
          (case exists_action (messages st @ call_llm a (messages st)) of
             Inl e \<Rightarrow> Inl e
           | Inr b \<Rightarrow>
               Inr (st\<lparr>at_node := (if b then Action else End),
                        messages := messages st @ call_llm a (messages st)\<rparr>))
      | Action \<Rightarrow>
          (case take_action a (messages st) of
             Inl e \<Rightarrow> Inl e
           | Inr (results, invoked) \<Rightarrow>
               Inr (st\<lparr>at_node := Llm, messages := messages st @ results,
                        tools_invoked := tools_invoked st @ invoked\<rparr>))
      | End \<Rightarrow> Inr st)"

section \<open>Notions used in the statements\<close>

text \<open>The records of one page that pass the recency test of the pagination loop.\<close>

definition recent_on :: "(list_request \<Rightarrow> response) \<Rightarrow> string \<Rightarrow> string \<Rightarrow> nat \<Rightarrow> pull list" where
  "recent_on get pr_url recency_str page =
     filter (is_recent recency_str) (json (get (page_request pr_url page)))"

text \<open>The record the second loop builds for a merged pull request whose
  \<^verbatim>\<open>updated_at\<close> parses.\<close>

definition details_of :: "host \<Rightarrow> clock \<Rightarrow> string \<Rightarrow> string \<Rightarrow> pull \<Rightarrow> pr_details" where
  "details_of h c owner repo pr =
     \<lparr>det_id = pr_id pr, det_title = pr_title pr, det_state = pr_state pr,
      det_description = pr_body pr,
      det_updated_at = projr (strptime_timestamp c (pr_updated_at pr)),
      det_url = pr_html_url pr,
      det_merge_description = merge_message (get_commit h (commit_url_of owner repo pr))\<rparr>"

text \<open>The tool message \<^verbatim>\<open>take_action\<close> builds for a call whose name is not a tool of
  the agent, and the record of a call that reached a tool.\<close>

definition retry_message :: "tool_call \<Rightarrow> message" where
  "retry_message t = ToolMessage (tc_id t) (tc_name t) ''bad tool name, retry''"

definition known_tool :: "agent \<Rightarrow> tool_call \<Rightarrow> bool" where
  "known_tool a t = (agent_tools a (tc_name t) \<noteq> None)"

definition invocation :: "tool_call \<Rightarrow> string \<times> py_value" where
  "invocation t = (tc_name t, tc_args t)"

section \<open>Sample inputs\<close>

text \<open>Two collected records with the same id field and different pull numbers in the
  URL, and two embedding services: one answers with a single vector whatever it is given,
  the other with one vector per text.\<close>

definition pr_a :: pr_details where
  "pr_a = \<lparr>det_id = 101, det_title = ''Fix upsert'', det_state = ''closed'',
     det_description = None, det_updated_at = 1700000000,
     det_url = ''https://github.com/o/r/pull/7'', det_merge_description = ''Merge''\<rparr>"

definition pr_b :: pr_details where
  "pr_b = \<lparr>det_id = 101, det_title = ''Add cache'', det_state = ''closed'',
     det_description = Some ''Adds a cache'', det_updated_at = 1700003600,
     det_url = ''https://github.com/o/r/pull/8'', det_merge_description = ''Merge 8''\<rparr>"

definition first_only :: "string list \<Rightarrow> vector list" where
  "first_only texts = [[1, 0]]"

definition one_each :: "string list \<Rightarrow> vector list" where
  "one_each texts = map (\<lambda>t. [real (length t)]) texts"

text \<open>A host with three pages: an open pull request on page 1, a merged one on page 2,
  nothing on page 3; the same host without the open pull request; a host whose second
  page answers 403. The clock prints the cutoff as midnight of 1 June 2024.\<close>

definition pull_open :: pull where
  "pull_open = \<lparr>pr_id = 501, pr_title = ''Draft'', pr_body = None, pr_state = ''open'',
     pr_updated_at = ''2024-06-01T10:00:00Z'', pr_html_url = ''https://github.com/o/r/pull/11'',
     pr_merged_at = None, pr_merge_commit_sha = None\<rparr>"

definition pull_merged :: pull where
  "pull_merged = \<lparr>pr_id = 502, pr_title = ''Fix'', pr_body = Some ''Fixes it'',
     pr_state = ''closed'', pr_updated_at = ''2024-06-01T09:00:00Z'',
     pr_html_url = ''https://github.com/o/r/pull/12'',
     pr_merged_at = Some ''2024-06-01T09:00:00Z'', pr_merge_commit_sha = Some ''abc''\<rparr>"

definition three_pages :: "list_request \<Rightarrow> response" where
  "three_pages rq =
     \<lparr>status_code = 200,
      json = (if req_page rq = 1 then [pull_open]
              else if req_page rq = 2 then [pull_merged] else [])\<rparr>"

definition merged_only_pages :: "list_request \<Rightarrow> response" where
  "merged_only_pages rq =
     \<lparr>status_code = 200, json = filter is_merged (json (three_pages rq))\<rparr>"

definition forbidden_on_2 :: "list_request \<Rightarrow> response" where
  "forbidden_on_2 rq =
     (if req_page rq = 1 then \<lparr>status_code = 200, json = [pull_merged]\<rparr>
      else \<lparr>status_code = 403, json = []\<rparr>)"

definition host_of :: "(list_request \<Rightarrow> response) \<Rightarrow> host" where
  "host_of pages =
     \<lparr>list_pulls = pages, get_commit = (\<lambda>url. Some (Some ''Merge pull request'')),
      get_text = (\<lambda>url. ''diff --git'')\<rparr>"

definition june_clock :: clock where
  "june_clock =
     \<lparr>clk_now = 1717286400, isoformat = (\<lambda>t. ''2024-06-01T00:00:00+00:00''),
      strptime_timestamp = (\<lambda>s. Inr 1717232400)\<rparr>"

text \<open>An index service holding two vectors, one updated 50000 seconds and one 100 seconds
  before the query time 1717286400; it keeps the matches that satisfy the filter and cuts
  them to \<open>top_k\<close>. The other services answer with fixed values.\<close>

definition match_old :: match where
  "match_old = \<lparr>match_id = ''11'', match_score = 0.9,
     match_metadata = \<lparr>meta_title = ''Old'', meta_state = ''closed'',
       meta_updated_at = 1717236400, meta_url = ''https://github.com/o/r/pull/11''\<rparr>\<rparr>"

definition match_new :: match where
  "match_new = \<lparr>match_id = ''12'', match_score = 0.8,
     match_metadata = \<lparr>meta_title = ''Fix'', meta_state = ''closed'',
       meta_updated_at = 1717286300, meta_url = ''https://github.com/o/r/pull/12''\<rparr>\<rparr>"

definition sample_index_query :: "string \<Rightarrow> query_request \<Rightarrow> match list" where
  "sample_index_query name q =
     take (nat (q_top_k q))
       (filter (\<lambda>m. filter_holds (q_filter q) (match_metadata m)) [match_old, match_new])"

definition sample_embed_query :: "string \<Rightarrow> vector" where
  "sample_embed_query text = [1, 0]"

definition sample_services :: services where
  "sample_services =
     \<lparr>srv_now = 1717286400, srv_embed_query = sample_embed_query,
      srv_index_query = sample_index_query, srv_get = (\<lambda>url. ''diff --git a b''),
      srv_chat_invoke = (\<lambda>msgs. ''PR 12 changed the upsert call''),
      srv_repr = (\<lambda>v. ''{...}'')\<rparr>"

text \<open>An agent with one tool, and a state in which the model has asked for a tool the
  agent does not have.\<close>

definition sample_agent :: agent where
  "sample_agent =
     \<lparr>agent_system = ''You are a professional software engineer'',
      agent_tools = [''find_relevant_diffs'' \<mapsto> (\<lambda>args. Inr (PyStr ''PR 12''))],
      agent_model = (\<lambda>msgs. AIMessage ''done'' []),
      agent_repr = (\<lambda>v. ''{...}'')\<rparr>"

definition sample_state :: run_state where
  "sample_state =
     \<lparr>at_node = Action,
      messages = [HumanMessage ''Broken pinecone upsert'',
                  AIMessage [] [(''search_the_web'', PyDict [], ''call_1'')]],
      tools_invoked = []\<rparr>"

text \<open>A host with records on both sides of the cutoff. Page 1 holds the open and the
  merged pull request of above, page 2 a merged one updated within the window and a merged
  one updated before it, page 3 only a record updated before the window, and every later
  page a recent record again. The clock stands at midnight of 2 June 2024 and prints the
  time 36 hours earlier as noon of 31 May; it parses the two texts it is told here.\<close>

definition pull_late :: pull where
  "pull_late = \<lparr>pr_id = 503, pr_title = ''Cache'', pr_body = None,
     pr_state = ''closed'', pr_updated_at = ''2024-06-01T10:00:00Z'',
     pr_html_url = ''https://github.com/o/r/pull/13'',
     pr_merged_at = Some ''2024-06-01T10:00:00Z'', pr_merge_commit_sha = Some ''def''\<rparr>"

definition pull_stale :: pull where
  "pull_stale = \<lparr>pr_id = 400, pr_title = ''Old fix'', pr_body = None,
     pr_state = ''closed'', pr_updated_at = ''2024-05-31T11:59:59Z'',
     pr_html_url = ''https://github.com/o/r/pull/9'',
     pr_merged_at = Some ''2024-05-30T08:00:00Z'', pr_merge_commit_sha = Some ''aaa''\<rparr>"

definition pull_older :: pull where
  "pull_older = \<lparr>pr_id = 399, pr_title = ''Older fix'', pr_body = None,
     pr_state = ''closed'', pr_updated_at = ''2024-05-29T08:00:00Z'',
     pr_html_url = ''https://github.com/o/r/pull/8'',
     pr_merged_at = Some ''2024-05-29T08:00:00Z'', pr_merge_commit_sha = Some ''bbb''\<rparr>"

definition stale_pages :: "list_request \<Rightarrow> response" where
  "stale_pages rq =
     \<lparr>status_code = 200,
      json = (if req_page rq = 1 then [pull_open, pull_merged]
              else if req_page rq = 2 then [pull_late, pull_stale]
              else if req_page rq = 3 then [pull_older]
              else [pull_merged])\<rparr>"

definition noon_clock :: clock where
  "noon_clock =
     \<lparr>clk_now = 1717286400,
      isoformat = (\<lambda>t. if t = 1717156800 then ''2024-05-31T12:00:00+00:00''
                       else ''1970-01-01T00:00:00+00:00''),
      strptime_timestamp =
        (\<lambda>s. if s = ''2024-06-01T09:00:00Z'' then Inr 1717232400
              else if s = ''2024-06-01T10:00:00Z'' then Inr 1717236000
              else Inl ValueError)\<rparr>"

text \<open>An agent whose one tool raises, and a turn in which the model asks for an unknown
  tool and for that one.\<close>

definition raising_agent :: agent where
  "raising_agent =
     \<lparr>agent_system = ''You are a professional software engineer'',
      agent_tools = [''find_relevant_diffs'' \<mapsto> (\<lambda>args. Inl (ToolError ''boom''))],
      agent_model = (\<lambda>msgs. AIMessage ''done'' []),
      agent_repr = (\<lambda>v. ''{...}'')\<rparr>"

definition mixed_state :: run_state where
  "mixed_state =
     \<lparr>at_node = Action,
      messages = [HumanMessage ''Broken pinecone upsert'',
                  AIMessage [] [(''search_the_web'', PyDict [], ''call_1''),
                                (''find_relevant_diffs'', PyDict [], ''call_2'')]],
      tools_invoked = []\<rparr>"

section \<open>Embedding Indexer: what embed_pr_data returns\<close>

lemma embed_pr_data_length:
  "length (embed_pr_data svc prs) = min (length prs) (length (svc (map text_to_embed prs)))"
  by (auto simp add: embed_pr_data_def Let_def)

lemma embed_pr_data_nth:
  "i < length (embed_pr_data svc prs) \<Longrightarrow>
   embed_pr_data svc prs ! i =
     (pr_id_of (prs ! i), svc (map text_to_embed prs) ! i, metadata_of (prs ! i))"
  by (cases "prs = []") (simp_all add: embed_pr_data_def Let_def)

lemma pr_id_of_pr_a: "pr_id_of pr_a = ''7''"
  by (simp add: pr_id_of_def py_split_def pr_a_def)

lemma pr_id_of_pr_b: "pr_id_of pr_b = ''8''"
  by (simp add: pr_id_of_def py_split_def pr_b_def)

text \<open>Claim C1, as stated, fails: given two records and an embedding service that
  answers with one vector, \<open>embed_pr_data\<close> returns one tuple and raises nothing. The
  list is cut to the shorter length without any length-mismatch error.\<close>

theorem embed_truncates_counterexample:
  "length [pr_a, pr_b] = 2 \<and>
   embed_pr_data first_only [pr_a, pr_b] = [(''7'', [1, 0], metadata_of pr_a)]"
  by (simp add: embed_pr_data_def first_only_def pr_id_of_pr_a)

text \<open>Claim C1, amended: for \<open>N\<close> records and a service that answers with \<open>M\<close> vectors,
  \<open>embed_pr_data\<close> returns \<open>min N M\<close> tuples, exactly \<open>N\<close> when \<open>M = N\<close>; the tuple
  at position \<open>i\<close> holds the identifier and metadata of record \<open>i\<close> and vector \<open>i\<close> of
  the service's answer, so the order of the input is kept and nothing is reordered.\<close>

theorem embed_pr_data_pairs:
  "length (embed_pr_data svc prs) = min (length prs) (length (svc (map text_to_embed prs))) \<and>
   (length (svc (map text_to_embed prs)) = length prs \<longrightarrow>
      length (embed_pr_data svc prs) = length prs) \<and>
   (\<forall>i < length (embed_pr_data svc prs).
      embed_pr_data svc prs ! i =
        (pr_id_of (prs ! i), svc (map text_to_embed prs) ! i, metadata_of (prs ! i)))"
  by (simp add: embed_pr_data_length embed_pr_data_nth)

text \<open>Witness for C1: two records, a service with one vector per text; both tuples are
  there and the second one belongs to the second record.\<close>

theorem embed_pr_data_pairs_witness:
  "length (one_each (map text_to_embed [pr_a, pr_b])) = length [pr_a, pr_b] \<and>
   length (embed_pr_data one_each [pr_a, pr_b]) = 2 \<and>
   (1::nat) < length (embed_pr_data one_each [pr_a, pr_b]) \<and>
   embed_pr_data one_each [pr_a, pr_b] ! 1 =
     (''8'', one_each (map text_to_embed [pr_a, pr_b]) ! 1, metadata_of pr_b)"
  using embed_pr_data_pairs [of one_each "[pr_a, pr_b]"]
  by (simp add: one_each_def pr_id_of_pr_b)

text \<open>Claim C2, as stated, fails: two records with the same id field get different
  vector identifiers, so the identifier of the vector is not the id field.\<close>

theorem vector_id_not_record_id_counterexample:
  "det_id pr_a = det_id pr_b \<and>
   map fst (embed_pr_data one_each [pr_a]) = [''7''] \<and>
   map fst (embed_pr_data one_each [pr_b]) = [''8'']"
  by (simp add: embed_pr_data_def one_each_def pr_id_of_pr_a pr_id_of_pr_b)
     (simp add: pr_a_def pr_b_def)

text \<open>Claim C2, amended: the identifier of each produced vector is the last piece of the
  record's URL after splitting at \<open>/\<close> (the pull number), and the URL itself is kept in
  the metadata; the id field of the record is not used.\<close>

theorem vector_id_from_url:
  "i < length (embed_pr_data svc prs) \<Longrightarrow>
   fst (embed_pr_data svc prs ! i) = last (py_split CHR ''/'' (det_url (prs ! i))) \<and>
   meta_url (snd (snd (embed_pr_data svc prs ! i))) = det_url (prs ! i)"
  by (simp add: embed_pr_data_nth pr_id_of_def metadata_of_def)

text \<open>Witness for C2 at the record with URL ending in \<open>/pull/7\<close>.\<close>

theorem vector_id_from_url_witness:
  "(0::nat) < length (embed_pr_data one_each [pr_a]) \<and>
   fst (embed_pr_data one_each [pr_a] ! 0) = ''7'' \<and>
   last (py_split CHR ''/'' (det_url ([pr_a] ! 0))) = ''7''"
proof -
  have len: "(0::nat) < length (embed_pr_data one_each [pr_a])"
    by (simp add: embed_pr_data_length one_each_def)
  have "last (py_split CHR ''/'' (det_url ([pr_a] ! 0))) = ''7''"
    using pr_id_of_pr_a by (simp add: pr_id_of_def)
  with len vector_id_from_url [OF len] show ?thesis by simp
qed

section \<open>Embedding Indexer: upsert of nothing\<close>

text \<open>Claim C10: with an empty vector list \<open>upsert_to_pinecone\<close> returns the client as it
  was, for every index name: the list of calls is unchanged (no listing of indexes, no
  creation, no upsert) and so are the index names, whether or not the index exists.\<close>

theorem upsert_empty_no_effect:
  "upsert_to_pinecone pc [] index_name = pc"
  by (simp add: upsert_to_pinecone_def)

section \<open>Change Collector: the pagination loop\<close>

text \<open>As long as the pages answer 200 and hold a recent record, the loop moves on,
  adding the recent records of each page and one list request per page.\<close>

lemma fetch_pages_continue:
  "(\<And>p. start \<le> p \<Longrightarrow> p < start + n \<Longrightarrow>
      status_code (get (page_request u p)) = 200 \<and> recent_on get u rs p \<noteq> []) \<Longrightarrow>
   fetch_pages get u rs start acc calls =
     fetch_pages get u rs (start + n)
       (acc @ concat (map (recent_on get u rs) [start..<start + n]))
       (calls @ map (\<lambda>p. ListPulls (page_request u p)) [start..<start + n])"
proof (induction n arbitrary: start acc calls)
  case 0
  then show ?case by simp
next
  case (Suc n)
  have here: "status_code (get (page_request u start)) = 200 \<and> recent_on get u rs start \<noteq> []"
    using Suc.prems [of start] by simp
  have step: "fetch_pages get u rs start acc calls =
      fetch_pages get u rs (Suc start) (acc @ recent_on get u rs start)
        (calls @ [ListPulls (page_request u start)])"
    using here by (subst fetch_pages.simps) (simp add: recent_on_def)
  have rest: "fetch_pages get u rs (Suc start) (acc @ recent_on get u rs start)
        (calls @ [ListPulls (page_request u start)]) =
      fetch_pages get u rs (Suc start + n)
        ((acc @ recent_on get u rs start) @ concat (map (recent_on get u rs) [Suc start..<Suc start + n]))
        ((calls @ [ListPulls (page_request u start)])
           @ map (\<lambda>p. ListPulls (page_request u p)) [Suc start..<Suc start + n])"
    by (rule Suc.IH) (use Suc.prems in auto)
  have upt: "[start..<start + Suc n] = start # [Suc start..<Suc start + n]"
    by (simp add: upt_conv_Cons)
  show ?case
    unfolding step rest upt by simp
qed

lemma fetch_pages_abort:
  "status_code (get (page_request u p)) \<noteq> 200 \<Longrightarrow>
   fetch_pages get u rs p acc calls = Some (Aborted, calls @ [ListPulls (page_request u p)])"
  by (subst fetch_pages.simps) simp

lemma fetch_pages_break:
  "status_code (get (page_request u p)) = 200 \<Longrightarrow> recent_on get u rs p = [] \<Longrightarrow>
   fetch_pages get u rs p acc calls = Some (Finished acc, calls @ [ListPulls (page_request u p)])"
  by (subst fetch_pages.simps) (simp add: recent_on_def)

lemma fetch_pages_from_1:
  assumes "\<And>p. 1 \<le> p \<Longrightarrow> p < k \<Longrightarrow>
             status_code (get (page_request u p)) = 200 \<and> recent_on get u rs p \<noteq> []"
    and "1 \<le> k"
  shows "fetch_pages get u rs 1 [] [] =
           fetch_pages get u rs k (concat (map (recent_on get u rs) [1..<k]))
             (map (\<lambda>p. ListPulls (page_request u p)) [1..<k])"
proof -
  have k: "1 + (k - 1) = k"
    using assms(2) by simp
  have "fetch_pages get u rs 1 [] [] =
          fetch_pages get u rs (1 + (k - 1))
            ([] @ concat (map (recent_on get u rs) [1..<1 + (k - 1)]))
            ([] @ map (\<lambda>p. ListPulls (page_request u p)) [1..<1 + (k - 1)])"
    by (rule fetch_pages_continue) (use assms in auto)
  then show ?thesis
    unfolding k by simp
qed

section \<open>Change Collector: a failed list request\<close>

text \<open>Claim C5: if the list request of page \<open>k\<close> answers with a status other than 200
  (the pages before it, if any, having kept the loop going), \<open>fetch_recent_prs\<close> returns
  the empty list, not an error and not the records of the earlier pages; the only calls
  made are the list requests of pages 1 to \<open>k\<close>.\<close>

theorem fetch_aborts_empty:
  assumes "1 \<le> k"
    and "\<forall>p. 1 \<le> p \<and> p < k \<longrightarrow>
           status_code (list_pulls h (page_request (pulls_url owner repo) p)) = 200 \<and>
           recent_on (list_pulls h) (pulls_url owner repo) (recency_str_of c hours_ago) p \<noteq> []"
    and "status_code (list_pulls h (page_request (pulls_url owner repo) k)) \<noteq> 200"
  shows "fetch_recent_prs h c owner repo hours_ago =
           Some (Inr [], map (\<lambda>p. ListPulls (page_request (pulls_url owner repo) p)) [1..<Suc k])"
proof -
  let ?u = "pulls_url owner repo" and ?rs = "recency_str_of c hours_ago"
  have "fetch_pages (list_pulls h) ?u ?rs 1 [] [] =
          fetch_pages (list_pulls h) ?u ?rs k
            (concat (map (recent_on (list_pulls h) ?u ?rs) [1..<k]))
            (map (\<lambda>p. ListPulls (page_request ?u p)) [1..<k])"
    by (rule fetch_pages_from_1) (use assms in auto)
  also have "\<dots> = Some (Aborted, map (\<lambda>p. ListPulls (page_request ?u p)) [1..<k]
                        @ [ListPulls (page_request ?u k)])"
    by (rule fetch_pages_abort) (rule assms(3))
  also have "map (\<lambda>p. ListPulls (page_request ?u p)) [1..<k] @ [ListPulls (page_request ?u k)] =
               map (\<lambda>p. ListPulls (page_request ?u p)) [1..<Suc k]"
    using assms(1) by simp
  finally show ?thesis
    by (simp add: fetch_recent_prs_def)
qed

lemma recent_on_forbidden_1:
  "recent_on forbidden_on_2 (pulls_url ''o'' ''r'') (recency_str_of june_clock 36) 1 = [pull_merged]"
  by (simp add: recent_on_def forbidden_on_2_def page_request_def is_recent_def
      recency_str_of_def june_clock_def pull_merged_def)

text \<open>Witness for C5: page 1 holds a recent merged pull request, page 2 answers 403.\<close>

theorem fetch_aborts_empty_witness:
  "fetch_recent_prs (host_of forbidden_on_2) june_clock ''o'' ''r'' 36 =
     Some (Inr [], [ListPulls (page_request (pulls_url ''o'' ''r'') 1),
                    ListPulls (page_request (pulls_url ''o'' ''r'') 2)])"
proof -
  have lp: "list_pulls (host_of forbidden_on_2) = forbidden_on_2"
    by (simp add: host_of_def)
  have one: "(1::nat) \<le> 2" by simp
  have pages: "\<forall>p. 1 \<le> p \<and> p < 2 \<longrightarrow>
      status_code (list_pulls (host_of forbidden_on_2) (page_request (pulls_url ''o'' ''r'') p)) = 200 \<and>
      recent_on (list_pulls (host_of forbidden_on_2)) (pulls_url ''o'' ''r'')
        (recency_str_of june_clock 36) p \<noteq> []"
  proof (intro allI impI)
    fix p :: nat
    assume "1 \<le> p \<and> p < 2"
    then have p: "p = 1" by simp
    show "status_code (list_pulls (host_of forbidden_on_2) (page_request (pulls_url ''o'' ''r'') p)) = 200 \<and>
      recent_on (list_pulls (host_of forbidden_on_2)) (pulls_url ''o'' ''r'')
        (recency_str_of june_clock 36) p \<noteq> []"
      unfolding p lp recent_on_forbidden_1
      by (simp add: forbidden_on_2_def page_request_def)
  qed
  have bad: "status_code (list_pulls (host_of forbidden_on_2) (page_request (pulls_url ''o'' ''r'') 2)) \<noteq> 200"
    unfolding lp by (simp add: forbidden_on_2_def page_request_def)
  have upt: "[1..<Suc 2] = [1, 2]"
    by (simp add: upt_conv_Cons)
  show ?thesis
    using fetch_aborts_empty [OF one pages bad] unfolding upt by simp
qed

section \<open>Change Collector: the sample hosts\<close>

lemma three_pages_status: "status_code (three_pages rq) = 200"
  by (simp add: three_pages_def)

lemma list_pulls_host_of: "list_pulls (host_of pages) = pages"
  by (simp add: host_of_def)

section \<open>Change Collector: merged and unmerged changes\<close>

text \<open>Every record of the result comes from a merged pull request of the list handed to
  the second loop, and every record the pagination loop hands over passed the recency test
  and was on one of the pages.\<close>

lemma details_loop_from_merged:
  "details_loop h c owner repo prs acc calls = (Inr ds, calls') \<Longrightarrow> d \<in> set ds \<Longrightarrow>
   d \<in> set acc \<or>
   (\<exists>pr \<in> set prs. is_merged pr \<and> det_id d = pr_id pr \<and> det_url d = pr_html_url pr)"
proof (induction prs arbitrary: acc calls)
  case Nil
  then show ?case by simp
next
  case (Cons pr prs)
  show ?case
  proof (cases "is_merged pr")
    case False
    with Cons.prems have "details_loop h c owner repo prs acc calls = (Inr ds, calls')"
      by simp
    from Cons.IH [OF this Cons.prems(2)] show ?thesis by auto
  next
    case True
    show ?thesis
    proof (cases "strptime_timestamp c (pr_updated_at pr)")
      case (Inl e)
      with True Cons.prems show ?thesis by simp
    next
      case (Inr ts)
      let ?d = "\<lparr>det_id = pr_id pr, det_title = pr_title pr, det_state = pr_state pr,
                 det_description = pr_body pr, det_updated_at = ts, det_url = pr_html_url pr,
                 det_merge_description =
                   merge_message (get_commit h (commit_url_of owner repo pr))\<rparr>"
      from True Inr Cons.prems
      have "details_loop h c owner repo prs (acc @ [?d])
              (calls @ [GetCommit (commit_url_of owner repo pr)]) = (Inr ds, calls')"
        by simp
      from Cons.IH [OF this Cons.prems(2)]
      have "d \<in> set (acc @ [?d]) \<or>
            (\<exists>pr \<in> set prs. is_merged pr \<and> det_id d = pr_id pr \<and> det_url d = pr_html_url pr)" .
      then show ?thesis
        using True by auto
    qed
  qed
qed

lemma fetch_pages_subset:
  assumes "fetch_pages get u rs p acc calls = Some y"
  shows "case fst y of
           Aborted \<Rightarrow> True
         | Finished all_recent \<Rightarrow>
             set all_recent \<subseteq>
               set acc \<union> {pr. is_recent rs pr \<and> (\<exists>q. pr \<in> set (json (get (page_request u q))))}"
proof (induction get u rs p acc calls y rule: fetch_pages.raw_induct)
  case (1 f get pr_url recency_str page all_recent_prs calls y)
  show ?case
  proof (cases "status_code (get (page_request pr_url page)) \<noteq> 200")
    case True
    with 1(2) show ?thesis by auto
  next
    case ok: False
    show ?thesis
    proof (cases "filter (is_recent recency_str) (json (get (page_request pr_url page))) = []")
      case True
      with ok 1(2) show ?thesis by auto
    next
      case False
      with ok 1(2)
      have "f get pr_url recency_str (page + 1)
              (all_recent_prs @ filter (is_recent recency_str) (json (get (page_request pr_url page))))
              (calls @ [ListPulls (page_request pr_url page)]) = Some y"
        by simp
      from 1(1) [OF this] show ?thesis
        by (cases "fst y") auto
    qed
  qed
next
  show "fetch_pages get u rs p acc calls = Some y"
    by (rule assms)
qed

lemma fetch_pages_from_pages:
  "fetch_pages get u rs p [] calls = Some (Finished all_recent, calls') \<Longrightarrow>
   pr \<in> set all_recent \<Longrightarrow>
   is_recent rs pr \<and> (\<exists>q. pr \<in> set (json (get (page_request u q))))"
  using fetch_pages_subset [of get u rs p "[]" calls "(Finished all_recent, calls')"] by auto

lemma fetch_pages_step:
  "status_code (get (page_request u p)) = 200 \<Longrightarrow> recent_on get u rs p \<noteq> [] \<Longrightarrow>
   fetch_pages get u rs p acc calls =
     fetch_pages get u rs (Suc p) (acc @ recent_on get u rs p)
       (calls @ [ListPulls (page_request u p)])"
  by (subst fetch_pages.simps) (simp add: recent_on_def)

lemma three_pages_recent_on:
  "recent_on three_pages (pulls_url ''o'' ''r'') (recency_str_of june_clock 36) p =
     (if p = 1 then [pull_open] else if p = 2 then [pull_merged] else [])"
  by (simp add: recent_on_def three_pages_def page_request_def is_recent_def
      recency_str_of_def june_clock_def pull_merged_def pull_open_def)

text \<open>The two sample runs: with the open pull request on page 1, and without it.\<close>

lemma three_pages_loop:
  "fetch_pages three_pages (pulls_url ''o'' ''r'') (recency_str_of june_clock 36) 1 [] [] =
     Some (Finished [pull_open, pull_merged],
           [ListPulls (page_request (pulls_url ''o'' ''r'') 1),
            ListPulls (page_request (pulls_url ''o'' ''r'') 2),
            ListPulls (page_request (pulls_url ''o'' ''r'') 3)])"
proof -
  let ?u = "pulls_url ''o'' ''r''" and ?rs = "recency_str_of june_clock 36"
  have s1: "fetch_pages three_pages ?u ?rs 1 [] [] =
      fetch_pages three_pages ?u ?rs (Suc 1) ([] @ recent_on three_pages ?u ?rs 1)
        ([] @ [ListPulls (page_request ?u 1)])"
    by (rule fetch_pages_step) (simp_all add: three_pages_status three_pages_recent_on)
  have s2: "fetch_pages three_pages ?u ?rs 2 [pull_open] [ListPulls (page_request ?u 1)] =
      fetch_pages three_pages ?u ?rs (Suc 2) ([pull_open] @ recent_on three_pages ?u ?rs 2)
        ([ListPulls (page_request ?u 1)] @ [ListPulls (page_request ?u 2)])"
    by (rule fetch_pages_step) (simp_all add: three_pages_status three_pages_recent_on)
  have s3: "fetch_pages three_pages ?u ?rs 3 [pull_open, pull_merged]
        [ListPulls (page_request ?u 1), ListPulls (page_request ?u 2)] =
      Some (Finished [pull_open, pull_merged],
        [ListPulls (page_request ?u 1), ListPulls (page_request ?u 2)]
          @ [ListPulls (page_request ?u 3)])"
    by (rule fetch_pages_break) (simp_all add: three_pages_status three_pages_recent_on)
  have n: "Suc 1 = 2" "Suc 2 = 3"
    by simp_all
  have r: "[] @ recent_on three_pages ?u ?rs 1 = [pull_open]"
      "[pull_open] @ recent_on three_pages ?u ?rs 2 = [pull_open, pull_merged]"
    by (simp_all add: three_pages_recent_on)
  have a: "[] @ [ListPulls (page_request ?u 1)] = [ListPulls (page_request ?u 1)]"
      "[ListPulls (page_request ?u 1)] @ [ListPulls (page_request ?u 2)] =
         [ListPulls (page_request ?u 1), ListPulls (page_request ?u 2)]"
      "[ListPulls (page_request ?u 1), ListPulls (page_request ?u 2)] @ [ListPulls (page_request ?u 3)] =
         [ListPulls (page_request ?u 1), ListPulls (page_request ?u 2), ListPulls (page_request ?u 3)]"
    by (rule append.simps append_Cons [THEN trans], simp only: append.simps)+
  show ?thesis
    using s1 s2 s3 unfolding n r a by (rule trans [OF _ trans])
qed

lemma merged_only_loop:
  "fetch_pages merged_only_pages (pulls_url ''o'' ''r'') (recency_str_of june_clock 36) 1 [] [] =
     Some (Finished [], [ListPulls (page_request (pulls_url ''o'' ''r'') 1)])"
  by (subst fetch_pages.simps)
     (simp add: merged_only_pages_def three_pages_def page_request_def is_merged_def pull_open_def)

lemma merged_flags: "\<not> is_merged pull_open" "is_merged pull_merged"
  by (simp_all add: is_merged_def pull_open_def pull_merged_def)

lemma three_pages_details:
  "details_loop (host_of three_pages) june_clock ''o'' ''r'' [pull_open, pull_merged] [] cs =
      (Inr [\<lparr>det_id = 502, det_title = ''Fix'', det_state = ''closed'',
                  det_description = Some ''Fixes it'', det_updated_at = 1717232400,
                  det_url = ''https://github.com/o/r/pull/12'',
                  det_merge_description = ''Merge pull request''\<rparr>],
       cs @ [GetCommit ''https://api.github.com/repos/o/r/commits/abc''])"
  by (simp add: merged_flags)
     (simp add: host_of_def june_clock_def commit_url_of_def pull_merged_def)

lemma three_pages_run:
  "fetch_recent_prs (host_of three_pages) june_clock ''o'' ''r'' 36 =
     Some (Inr [\<lparr>det_id = 502, det_title = ''Fix'', det_state = ''closed'',
                  det_description = Some ''Fixes it'', det_updated_at = 1717232400,
                  det_url = ''https://github.com/o/r/pull/12'',
                  det_merge_description = ''Merge pull request''\<rparr>],
           [ListPulls (page_request (pulls_url ''o'' ''r'') 1),
            ListPulls (page_request (pulls_url ''o'' ''r'') 2),
            ListPulls (page_request (pulls_url ''o'' ''r'') 3),
            GetCommit ''https://api.github.com/repos/o/r/commits/abc''])"
  unfolding fetch_recent_prs_def list_pulls_host_of three_pages_loop
  by (simp add: three_pages_details del: One_nat_def details_loop.simps)

lemma merged_only_run:
  "fetch_recent_prs (host_of merged_only_pages) june_clock ''o'' ''r'' 36 =
     Some (Inr [], [ListPulls (page_request (pulls_url ''o'' ''r'') 1)])"
  unfolding fetch_recent_prs_def list_pulls_host_of merged_only_loop
  by simp

text \<open>Claim C8, as stated, fails: page 1 of the sample host holds no merged record, only
  an open pull request updated within the window, and the loop still goes on to page 2,
  whose merged record is returned. On the same host without the open pull request the
  loop stops at page 1 and the result is empty. So a change without a merge timestamp does
  count in the recency test that keeps pagination going.\<close>

theorem unmerged_keeps_pagination_counterexample:
  "filter is_merged (json (three_pages (page_request (pulls_url ''o'' ''r'') 1))) = [] \<and>
   fetch_recent_prs (host_of three_pages) june_clock ''o'' ''r'' 36 =
     Some (Inr [\<lparr>det_id = 502, det_title = ''Fix'', det_state = ''closed'',
                  det_description = Some ''Fixes it'', det_updated_at = 1717232400,
                  det_url = ''https://github.com/o/r/pull/12'',
                  det_merge_description = ''Merge pull request''\<rparr>],
           [ListPulls (page_request (pulls_url ''o'' ''r'') 1),
            ListPulls (page_request (pulls_url ''o'' ''r'') 2),
            ListPulls (page_request (pulls_url ''o'' ''r'') 3),
            GetCommit ''https://api.github.com/repos/o/r/commits/abc'']) \<and>
   fetch_recent_prs (host_of merged_only_pages) june_clock ''o'' ''r'' 36 =
     Some (Inr [], [ListPulls (page_request (pulls_url ''o'' ''r'') 1)])"
  by (simp add: three_pages_run merged_only_run)
     (simp add: three_pages_def page_request_def merged_flags)

text \<open>Claim C8, amended: a change without a merge timestamp never appears in the
  result, every returned record comes from a pull request on one of the pages that is
  merged and passes the recency test; but on a page that answers 200 such a change, when
  it passes the recency test, keeps the pagination loop going like any other record.\<close>

theorem unmerged_dropped_but_counted:
  "(status_code (get (page_request u p)) = 200 \<and> pr \<in> set (json (get (page_request u p))) \<and>
    is_recent rs pr \<and> \<not> is_merged pr \<longrightarrow>
      fetch_pages get u rs p acc calls =
        fetch_pages get u rs (Suc p) (acc @ recent_on get u rs p)
          (calls @ [ListPulls (page_request u p)])) \<and>
   (fetch_recent_prs h c owner repo hours_ago = Some (Inr ds, calls') \<and> d \<in> set ds \<longrightarrow>
      (\<exists>pr q. pr \<in> set (json (list_pulls h (page_request (pulls_url owner repo) q))) \<and>
         is_merged pr \<and> is_recent (recency_str_of c hours_ago) pr \<and>
         det_id d = pr_id pr \<and> det_url d = pr_html_url pr))"
proof (intro conjI impI)
  assume a: "status_code (get (page_request u p)) = 200 \<and>
    pr \<in> set (json (get (page_request u p))) \<and> is_recent rs pr \<and> \<not> is_merged pr"
  then have "pr \<in> set (recent_on get u rs p)"
    by (simp add: recent_on_def)
  then have "recent_on get u rs p \<noteq> []"
    by auto
  with a show "fetch_pages get u rs p acc calls =
        fetch_pages get u rs (Suc p) (acc @ recent_on get u rs p)
          (calls @ [ListPulls (page_request u p)])"
    by (intro fetch_pages_step) simp_all
next
  assume b: "fetch_recent_prs h c owner repo hours_ago = Some (Inr ds, calls') \<and> d \<in> set ds"
  let ?u = "pulls_url owner repo" and ?rs = "recency_str_of c hours_ago"
  from b obtain y where y: "fetch_pages (list_pulls h) ?u ?rs 1 [] [] = Some y"
    by (cases "fetch_pages (list_pulls h) ?u ?rs 1 [] []") (auto simp add: fetch_recent_prs_def)
  obtain ex cs where ycs: "y = (ex, cs)"
    by (cases y)
  show "\<exists>pr q. pr \<in> set (json (list_pulls h (page_request ?u q))) \<and>
         is_merged pr \<and> is_recent ?rs pr \<and> det_id d = pr_id pr \<and> det_url d = pr_html_url pr"
  proof (cases ex)
    case Aborted
    with b y ycs show ?thesis
      by (auto simp add: fetch_recent_prs_def)
  next
    case (Finished all_recent)
    with b y ycs have dl: "details_loop h c owner repo all_recent [] cs = (Inr ds, calls')"
      by (simp add: fetch_recent_prs_def)
    from details_loop_from_merged [OF dl] b
    obtain pr where pr: "pr \<in> set all_recent" "is_merged pr" "det_id d = pr_id pr"
        "det_url d = pr_html_url pr"
      by auto
    from y ycs Finished have "fetch_pages (list_pulls h) ?u ?rs 1 [] [] = Some (Finished all_recent, cs)"
      by simp
    from fetch_pages_from_pages [OF this pr(1)] pr show ?thesis
      by blast
  qed
qed

text \<open>Witness for C8 on the sample host: the open pull request of page 1 sends the loop
  to page 2, and the one returned record comes from the merged pull request 502.\<close>

theorem unmerged_dropped_but_counted_witness:
  "fetch_pages three_pages (pulls_url ''o'' ''r'') (recency_str_of june_clock 36) 1 [] [] =
     fetch_pages three_pages (pulls_url ''o'' ''r'') (recency_str_of june_clock 36) (Suc 1)
       [pull_open] [ListPulls (page_request (pulls_url ''o'' ''r'') 1)] \<and>
   (\<exists>pr q. pr \<in> set (json (list_pulls (host_of three_pages) (page_request (pulls_url ''o'' ''r'') q))) \<and>
      is_merged pr \<and> is_recent (recency_str_of june_clock 36) pr \<and> pr_id pr = 502)"
proof -
  let ?u = "pulls_url ''o'' ''r''" and ?rs = "recency_str_of june_clock 36"
  let ?d = "\<lparr>det_id = 502, det_title = ''Fix'', det_state = ''closed'',
                  det_description = Some ''Fixes it'', det_updated_at = 1717232400,
                  det_url = ''https://github.com/o/r/pull/12'',
                  det_merge_description = ''Merge pull request''\<rparr>"
  let ?cs = "[ListPulls (page_request ?u 1), ListPulls (page_request ?u 2),
              ListPulls (page_request ?u 3),
              GetCommit ''https://api.github.com/repos/o/r/commits/abc'']"
  have h1: "status_code (three_pages (page_request ?u 1)) = 200 \<and>
      pull_open \<in> set (json (three_pages (page_request ?u 1))) \<and>
      is_recent ?rs pull_open \<and> \<not> is_merged pull_open"
    by (simp add: three_pages_def page_request_def merged_flags)
       (simp add: is_recent_def recency_str_of_def june_clock_def pull_open_def)
  have run: "fetch_recent_prs (host_of three_pages) june_clock ''o'' ''r'' 36 = Some (Inr [?d], ?cs)"
    by (rule three_pages_run)
  have h2: "fetch_recent_prs (host_of three_pages) june_clock ''o'' ''r'' 36 = Some (Inr [?d], ?cs) \<and>
      ?d \<in> set [?d]"
    using run by simp
  note inst = unmerged_dropped_but_counted [of three_pages ?u 1 pull_open ?rs "[]" "[]"
      "host_of three_pages" june_clock "''o''" "''r''" 36 "[?d]" ?cs ?d]
  from inst [THEN conjunct1, rule_format, OF h1] inst [THEN conjunct2, rule_format, OF h2]
  show ?thesis
    by (simp add: three_pages_recent_on del: One_nat_def) blast
qed

section \<open>Change Collector: where pagination stops\<close>

text \<open>When the \<^verbatim>\<open>updated_at\<close> of every merged record parses, the second loop returns
  one record per merged pull request, in order, and makes one commit request for each.\<close>

lemma details_loop_all_parse:
  "\<forall>pr \<in> set prs. is_merged pr \<longrightarrow> \<not> isl (strptime_timestamp c (pr_updated_at pr)) \<Longrightarrow>
   details_loop h c owner repo prs acc calls =
     (Inr (acc @ map (details_of h c owner repo) (filter is_merged prs)),
      calls @ map (\<lambda>pr. GetCommit (commit_url_of owner repo pr)) (filter is_merged prs))"
proof (induction prs arbitrary: acc calls)
  case Nil
  then show ?case by simp
next
  case (Cons pr prs)
  have rest: "\<forall>pr \<in> set prs. is_merged pr \<longrightarrow> \<not> isl (strptime_timestamp c (pr_updated_at pr))"
    using Cons.prems by simp
  show ?case
  proof (cases "is_merged pr")
    case False
    then show ?thesis
      using Cons.IH [OF rest] by simp
  next
    case True
    with Cons.prems have "\<not> isl (strptime_timestamp c (pr_updated_at pr))"
      by simp
    then obtain ts where ts: "strptime_timestamp c (pr_updated_at pr) = Inr ts"
      by (cases "strptime_timestamp c (pr_updated_at pr)") auto
    show ?thesis
      using True ts Cons.IH [OF rest] by (simp add: details_of_def)
  qed
qed

text \<open>The sample host with records on both sides of the cutoff.\<close>

lemma stale_pages_recent_on:
  "recent_on stale_pages (pulls_url ''o'' ''r'') (recency_str_of noon_clock 36) p =
     (if p = 1 then [pull_open, pull_merged] else if p = 2 then [pull_late]
      else if p = 3 then [] else [pull_merged])"
  by (simp add: recent_on_def stale_pages_def page_request_def is_recent_def
      recency_str_of_def noon_clock_def pull_merged_def pull_open_def pull_late_def
      pull_stale_def pull_older_def)

lemma stale_pages_status: "status_code (stale_pages rq) = 200"
  by (simp add: stale_pages_def)

lemma noon_parses:
  "strptime_timestamp noon_clock (pr_updated_at pull_merged) = Inr 1717232400"
  "strptime_timestamp noon_clock (pr_updated_at pull_late) = Inr 1717236000"
  by (simp_all add: noon_clock_def pull_merged_def pull_late_def)

lemma late_merged: "is_merged pull_late"
  by (simp add: is_merged_def pull_late_def)

lemma noon_cutoff: "recency_str_of noon_clock 36 = ''2024-05-31T12:00:00+00:00Z''"
  by (simp add: recency_str_of_def noon_clock_def)

lemma stale_pages_loop:
  "fetch_pages stale_pages (pulls_url ''o'' ''r'') (recency_str_of noon_clock 36) 1 [] [] =
     Some (Finished [pull_open, pull_merged, pull_late],
           [ListPulls (page_request (pulls_url ''o'' ''r'') 1),
            ListPulls (page_request (pulls_url ''o'' ''r'') 2),
            ListPulls (page_request (pulls_url ''o'' ''r'') 3)])"
proof -
  let ?u = "pulls_url ''o'' ''r''" and ?rs = "recency_str_of noon_clock 36"
  have s1: "fetch_pages stale_pages ?u ?rs 1 [] [] =
      fetch_pages stale_pages ?u ?rs (Suc 1) ([] @ recent_on stale_pages ?u ?rs 1)
        ([] @ [ListPulls (page_request ?u 1)])"
    by (rule fetch_pages_step) (simp_all add: stale_pages_status stale_pages_recent_on)
  have s2: "fetch_pages stale_pages ?u ?rs 2 [pull_open, pull_merged]
        [ListPulls (page_request ?u 1)] =
      fetch_pages stale_pages ?u ?rs (Suc 2)
        ([pull_open, pull_merged] @ recent_on stale_pages ?u ?rs 2)
        ([ListPulls (page_request ?u 1)] @ [ListPulls (page_request ?u 2)])"
    by (rule fetch_pages_step) (simp_all add: stale_pages_status stale_pages_recent_on)
  have s3: "fetch_pages stale_pages ?u ?rs 3 [pull_open, pull_merged, pull_late]
        [ListPulls (page_request ?u 1), ListPulls (page_request ?u 2)] =
      Some (Finished [pull_open, pull_merged, pull_late],
        [ListPulls (page_request ?u 1), ListPulls (page_request ?u 2)]
          @ [ListPulls (page_request ?u 3)])"
    by (rule fetch_pages_break) (simp_all add: stale_pages_status stale_pages_recent_on)
  have n: "Suc 1 = 2" "Suc 2 = 3"
    by simp_all
  have r: "[] @ recent_on stale_pages ?u ?rs 1 = [pull_open, pull_merged]"
      "[pull_open, pull_merged] @ recent_on stale_pages ?u ?rs 2 =
         [pull_open, pull_merged, pull_late]"
    by (simp_all add: stale_pages_recent_on)
  have a: "[] @ [ListPulls (page_request ?u 1)] = [ListPulls (page_request ?u 1)]"
      "[ListPulls (page_request ?u 1)] @ [ListPulls (page_request ?u 2)] =
         [ListPulls (page_request ?u 1), ListPulls (page_request ?u 2)]"
      "[ListPulls (page_request ?u 1), ListPulls (page_request ?u 2)] @ [ListPulls (page_request ?u 3)] =
         [ListPulls (page_request ?u 1), ListPulls (page_request ?u 2), ListPulls (page_request ?u 3)]"
    by (rule append.simps append_Cons [THEN trans], simp only: append.simps)+
  show ?thesis
    using s1 s2 s3 unfolding n r a by (rule trans [OF _ trans])
qed

lemma stale_pages_details:
  "details_loop (host_of stale_pages) noon_clock ''o'' ''r'' [pull_open, pull_merged, pull_late] [] cs =
      (Inr [\<lparr>det_id = 502, det_title = ''Fix'', det_state = ''closed'',
              det_description = Some ''Fixes it'', det_updated_at = 1717232400,
              det_url = ''https://github.com/o/r/pull/12'',
              det_merge_description = ''Merge pull request''\<rparr>,
            \<lparr>det_id = 503, det_title = ''Cache'', det_state = ''closed'',
              det_description = None, det_updated_at = 1717236000,
              det_url = ''https://github.com/o/r/pull/13'',
              det_merge_description = ''Merge pull request''\<rparr>],
       cs @ [GetCommit ''https://api.github.com/repos/o/r/commits/abc'',
             GetCommit ''https://api.github.com/repos/o/r/commits/def''])"
  by (simp add: merged_flags late_merged noon_parses)
     (simp add: host_of_def commit_url_of_def pull_merged_def pull_late_def)

text \<open>Claim C9, as stated, fails: the open pull request of page 1 passes the recency
  test on a page before the stopping page 3, and it is not in the result, which holds the
  two merged recent pull requests only.\<close>

theorem recent_unmerged_not_in_result_counterexample:
  "recent_on stale_pages (pulls_url ''o'' ''r'') (recency_str_of noon_clock 36) 1 =
     [pull_open, pull_merged] \<and>
   pr_id pull_open = 501 \<and>
   fetch_recent_prs (host_of stale_pages) noon_clock ''o'' ''r'' 36 =
     Some (Inr [\<lparr>det_id = 502, det_title = ''Fix'', det_state = ''closed'',
                  det_description = Some ''Fixes it'', det_updated_at = 1717232400,
                  det_url = ''https://github.com/o/r/pull/12'',
                  det_merge_description = ''Merge pull request''\<rparr>,
                \<lparr>det_id = 503, det_title = ''Cache'', det_state = ''closed'',
                  det_description = None, det_updated_at = 1717236000,
                  det_url = ''https://github.com/o/r/pull/13'',
                  det_merge_description = ''Merge pull request''\<rparr>],
           [ListPulls (page_request (pulls_url ''o'' ''r'') 1),
            ListPulls (page_request (pulls_url ''o'' ''r'') 2),
            ListPulls (page_request (pulls_url ''o'' ''r'') 3),
            GetCommit ''https://api.github.com/repos/o/r/commits/abc'',
            GetCommit ''https://api.github.com/repos/o/r/commits/def''])"
proof (intro conjI)
  show "recent_on stale_pages (pulls_url ''o'' ''r'') (recency_str_of noon_clock 36) 1 =
     [pull_open, pull_merged]"
    by (simp add: stale_pages_recent_on)
  show "pr_id pull_open = 501"
    by (simp add: pull_open_def)
  show "fetch_recent_prs (host_of stale_pages) noon_clock ''o'' ''r'' 36 =
     Some (Inr [\<lparr>det_id = 502, det_title = ''Fix'', det_state = ''closed'',
                  det_description = Some ''Fixes it'', det_updated_at = 1717232400,
                  det_url = ''https://github.com/o/r/pull/12'',
                  det_merge_description = ''Merge pull request''\<rparr>,
                \<lparr>det_id = 503, det_title = ''Cache'', det_state = ''closed'',
                  det_description = None, det_updated_at = 1717236000,
                  det_url = ''https://github.com/o/r/pull/13'',
                  det_merge_description = ''Merge pull request''\<rparr>],
           [ListPulls (page_request (pulls_url ''o'' ''r'') 1),
            ListPulls (page_request (pulls_url ''o'' ''r'') 2),
            ListPulls (page_request (pulls_url ''o'' ''r'') 3),
            GetCommit ''https://api.github.com/repos/o/r/commits/abc'',
            GetCommit ''https://api.github.com/repos/o/r/commits/def''])"
    unfolding fetch_recent_prs_def list_pulls_host_of stale_pages_loop
    by (simp add: stale_pages_details del: One_nat_def details_loop.simps)
qed

text \<open>Claim C9, amended: when the list requests answer 200, the loop asks for pages 1,
  2, ... in this order, each with \<^verbatim>\<open>per_page\<close> 100, and stops at the first page \<open>k\<close>
  that holds no record whose \<^verbatim>\<open>updated_at\<close> text is at least the cutoff text, which is
  the ISO text of the call time minus \<open>hours_ago\<close> hours followed by \<^verbatim>\<open>Z\<close>. The loop
  hands over the recent records of pages 1 to \<open>k - 1\<close> in page order; of these, the merged
  ones (and only they) contribute one record each to the result, in the same order, with
  one commit request each, provided their \<^verbatim>\<open>updated_at\<close> parses.\<close>

theorem pagination_stops_at_first_stale_page:
  assumes cutoff: "cutoff = isoformat c (clk_now c - 3600 * real_of_int hours_ago) @ ''Z''"
    and request: "request = (\<lambda>p. \<lparr>req_url = ''https://api.github.com/repos/'' @ owner @ ''/''
                                          @ repo @ ''/pulls'',
                                req_state = ''all'', req_per_page = 100, req_page = p\<rparr>)"
    and recent: "recent = (\<lambda>p. filter (\<lambda>pr. str_ge (pr_updated_at pr) cutoff)
                                (json (list_pulls h (request p))))"
    and k: "1 \<le> k"
    and before: "\<forall>p. 1 \<le> p \<and> p < k \<longrightarrow>
                   status_code (list_pulls h (request p)) = 200 \<and> recent p \<noteq> []"
    and at_k: "status_code (list_pulls h (request k)) = 200" "recent k = []"
    and parses: "\<forall>pr \<in> set (concat (map recent [1..<k])).
                   is_merged pr \<longrightarrow> \<not> isl (strptime_timestamp c (pr_updated_at pr))"
  shows "fetch_pages (list_pulls h) (pulls_url owner repo) (recency_str_of c hours_ago) 1 [] [] =
           Some (Finished (concat (map recent [1..<k])),
                 map (\<lambda>p. ListPulls (request p)) [1..<Suc k]) \<and>
         fetch_recent_prs h c owner repo hours_ago =
           Some (Inr (map (details_of h c owner repo)
                        (filter is_merged (concat (map recent [1..<k])))),
                 map (\<lambda>p. ListPulls (request p)) [1..<Suc k]
                   @ map (\<lambda>pr. GetCommit (commit_url_of owner repo pr))
                       (filter is_merged (concat (map recent [1..<k]))))"
proof -
  let ?u = "pulls_url owner repo" and ?rs = "recency_str_of c hours_ago"
  have rq: "request = page_request ?u"
    unfolding request by (rule ext) (simp add: page_request_def pulls_url_def)
  have rc: "recent = recent_on (list_pulls h) ?u ?rs"
    unfolding recent rq cutoff
    by (rule ext) (simp add: recent_on_def recency_str_of_def is_recent_def [abs_def])
  have "fetch_pages (list_pulls h) ?u ?rs 1 [] [] =
          fetch_pages (list_pulls h) ?u ?rs k
            (concat (map (recent_on (list_pulls h) ?u ?rs) [1..<k]))
            (map (\<lambda>p. ListPulls (page_request ?u p)) [1..<k])"
    by (rule fetch_pages_from_1) (use before k in \<open>auto simp add: rq rc\<close>)
  also have "\<dots> = Some (Finished (concat (map (recent_on (list_pulls h) ?u ?rs) [1..<k])),
                        map (\<lambda>p. ListPulls (page_request ?u p)) [1..<k]
                          @ [ListPulls (page_request ?u k)])"
    by (rule fetch_pages_break) (use at_k in \<open>simp_all add: rq rc\<close>)
  also have "map (\<lambda>p. ListPulls (page_request ?u p)) [1..<k] @ [ListPulls (page_request ?u k)] =
               map (\<lambda>p. ListPulls (page_request ?u p)) [1..<Suc k]"
    using k by simp
  finally have loop: "fetch_pages (list_pulls h) ?u ?rs 1 [] [] =
      Some (Finished (concat (map recent [1..<k])), map (\<lambda>p. ListPulls (request p)) [1..<Suc k])"
    unfolding rq rc .
  have details: "details_loop h c owner repo (concat (map recent [1..<k])) []
        (map (\<lambda>p. ListPulls (request p)) [1..<Suc k]) =
      (Inr ([] @ map (details_of h c owner repo) (filter is_merged (concat (map recent [1..<k])))),
       map (\<lambda>p. ListPulls (request p)) [1..<Suc k]
         @ map (\<lambda>pr. GetCommit (commit_url_of owner repo pr))
             (filter is_merged (concat (map recent [1..<k]))))"
    by (rule details_loop_all_parse) (rule parses)
  have result: "fetch_recent_prs h c owner repo hours_ago =
      Some (Inr (map (details_of h c owner repo) (filter is_merged (concat (map recent [1..<k])))),
            map (\<lambda>p. ListPulls (request p)) [1..<Suc k]
              @ map (\<lambda>pr. GetCommit (commit_url_of owner repo pr))
                  (filter is_merged (concat (map recent [1..<k]))))"
    unfolding fetch_recent_prs_def loop using details by simp
  from loop result show ?thesis
    by (rule conjI)
qed

text \<open>Witness for C9: pages 1 and 2 hold recent records, page 3 holds only a record
  updated before the cutoff, and page 2 holds another such record beside a recent one. The
  loop stops at page 3, and the result holds the two merged recent pull requests.\<close>

theorem pagination_stops_at_first_stale_page_witness:
  "json (stale_pages \<lparr>req_url = ''https://api.github.com/repos/o/r/pulls'', req_state = ''all'',
                          req_per_page = 100, req_page = 3\<rparr>) = [pull_older] \<and>
   \<not> str_ge (pr_updated_at pull_older) ''2024-05-31T12:00:00+00:00Z'' \<and>
   \<not> str_ge (pr_updated_at pull_stale) ''2024-05-31T12:00:00+00:00Z'' \<and>
   fetch_recent_prs (host_of stale_pages) noon_clock ''o'' ''r'' 36 =
     Some (Inr [details_of (host_of stale_pages) noon_clock ''o'' ''r'' pull_merged,
                details_of (host_of stale_pages) noon_clock ''o'' ''r'' pull_late],
           [ListPulls \<lparr>req_url = ''https://api.github.com/repos/o/r/pulls'', req_state = ''all'',
                        req_per_page = 100, req_page = 1\<rparr>,
            ListPulls \<lparr>req_url = ''https://api.github.com/repos/o/r/pulls'', req_state = ''all'',
                        req_per_page = 100, req_page = 2\<rparr>,
            ListPulls \<lparr>req_url = ''https://api.github.com/repos/o/r/pulls'', req_state = ''all'',
                        req_per_page = 100, req_page = 3\<rparr>,
            GetCommit ''https://api.github.com/repos/o/r/commits/abc'',
            GetCommit ''https://api.github.com/repos/o/r/commits/def''])"
proof -
  let ?h = "host_of stale_pages"
  let ?cutoff = "''2024-05-31T12:00:00+00:00Z''"
  let ?request = "\<lambda>p. \<lparr>req_url = ''https://api.github.com/repos/'' @ ''o'' @ ''/'' @ ''r'' @ ''/pulls'',
                         req_state = ''all'', req_per_page = 100, req_page = p\<rparr>"
  let ?recent = "\<lambda>p. filter (\<lambda>pr. str_ge (pr_updated_at pr) ?cutoff)
                         (json (list_pulls ?h (?request p)))"
  have cutoff: "?cutoff = isoformat noon_clock (clk_now noon_clock - 3600 * real_of_int 36) @ ''Z''"
    by (simp add: noon_clock_def)
  have recent: "?recent p =
      (if p = 1 then [pull_open, pull_merged] else if p = 2 then [pull_late]
       else if p = 3 then [] else [pull_merged])" for p
    by (simp add: list_pulls_host_of stale_pages_def pull_merged_def pull_open_def
        pull_late_def pull_stale_def pull_older_def)
  have k: "(1::nat) \<le> 3"
    by simp
  have before: "\<forall>p. 1 \<le> p \<and> p < 3 \<longrightarrow>
      status_code (list_pulls ?h (?request p)) = 200 \<and> ?recent p \<noteq> []"
    unfolding recent by (simp add: list_pulls_host_of stale_pages_status)
  have at_k: "status_code (list_pulls ?h (?request 3)) = 200" "?recent 3 = []"
    unfolding recent by (simp_all add: list_pulls_host_of stale_pages_status)
  have upt: "[1..<3] = [1, 2::nat]" "[1..<Suc 3] = [1, 2, 3::nat]"
    by (simp_all add: upt_conv_Cons)
  have all: "concat (map ?recent [1..<3]) = [pull_open, pull_merged, pull_late]"
    unfolding upt recent by simp
  have parses: "\<forall>pr \<in> set (concat (map ?recent [1..<3])).
      is_merged pr \<longrightarrow> \<not> isl (strptime_timestamp noon_clock (pr_updated_at pr))"
    unfolding all by (simp add: merged_flags noon_parses)
  have merged: "filter is_merged [pull_open, pull_merged, pull_late] = [pull_merged, pull_late]"
    by (simp add: merged_flags late_merged)
  have urls: "commit_url_of ''o'' ''r'' pull_merged = ''https://api.github.com/repos/o/r/commits/abc''"
      "commit_url_of ''o'' ''r'' pull_late = ''https://api.github.com/repos/o/r/commits/def''"
    by (simp_all add: commit_url_of_def pull_merged_def pull_late_def)
  have stale: "json (stale_pages \<lparr>req_url = ''https://api.github.com/repos/o/r/pulls'',
        req_state = ''all'', req_per_page = 100, req_page = 3\<rparr>) = [pull_older]"
      "\<not> str_ge (pr_updated_at pull_older) ?cutoff"
      "\<not> str_ge (pr_updated_at pull_stale) ?cutoff"
    by (simp_all add: stale_pages_def pull_older_def pull_stale_def)
  have filt: "filter is_merged (concat (map ?recent [1..<3])) = [pull_merged, pull_late]"
    unfolding all by (rule merged)
  have reqs: "map (\<lambda>p. ListPulls (?request p)) [1..<Suc 3] =
      [ListPulls (?request 1), ListPulls (?request 2), ListPulls (?request 3)]"
    unfolding upt by simp
  from pagination_stops_at_first_stale_page
    [OF cutoff refl refl k before at_k parses, THEN conjunct2]
  have "fetch_recent_prs ?h noon_clock ''o'' ''r'' 36 =
      Some (Inr (map (details_of ?h noon_clock ''o'' ''r'')
                   (filter is_merged (concat (map ?recent [1..<3])))),
            map (\<lambda>p. ListPulls (?request p)) [1..<Suc 3]
              @ map (\<lambda>pr. GetCommit (commit_url_of ''o'' ''r'' pr))
                  (filter is_merged (concat (map ?recent [1..<3]))))" .
  then have "fetch_recent_prs ?h noon_clock ''o'' ''r'' 36 =
      Some (Inr [details_of ?h noon_clock ''o'' ''r'' pull_merged,
                 details_of ?h noon_clock ''o'' ''r'' pull_late],
            [ListPulls (?request 1), ListPulls (?request 2), ListPulls (?request 3),
             GetCommit ''https://api.github.com/repos/o/r/commits/abc'',
             GetCommit ''https://api.github.com/repos/o/r/commits/def''])"
    unfolding filt reqs by (simp add: urls)
  with stale show ?thesis
    by simp
qed

section \<open>Similarity Retriever: the recency filter\<close>

lemma filter_holds_updated_at:
  "filter_holds [(''updated_at'', [(''$gte'', cutoff)])] md = (cutoff \<le> meta_updated_at md)"
  by (simp add: filter_holds_def condition_holds_def numeric_field_def)

text \<open>Claim C3: \<open>semantic_search\<close> sends the filter \<^verbatim>\<open>updated_at >= now - 12 h\<close> with
  the query and returns what the index answers; with an index that filters on the server
  side, every returned record has a stored \<^verbatim>\<open>updated_at\<close> of at least the query time
  minus 43200 seconds, so no record older than that is returned.\<close>

theorem search_excludes_older_than_12h:
  assumes "server_side_filter index_query"
  shows "\<forall>m \<in> set (semantic_search now embed_query index_query issue_description index_name top_k).
           now - 43200 \<le> meta_updated_at (match_metadata m) \<and>
           \<not> meta_updated_at (match_metadata m) < now - 12 * 3600"
proof
  fix m
  let ?q = "\<lparr>q_vector = embed_query issue_description, q_top_k = top_k,
             q_include_metadata = True,
             q_filter = [(''updated_at'', [(''$gte'', now - 12 * 3600)])]\<rparr>"
  assume "m \<in> set (semantic_search now embed_query index_query issue_description index_name top_k)"
  then have "m \<in> set (index_query index_name ?q)"
    by (simp add: semantic_search_def)
  moreover have "list_all (\<lambda>m. filter_holds (q_filter ?q) (match_metadata m)) (index_query index_name ?q)"
    using assms unfolding server_side_filter_def by blast
  ultimately have "filter_holds (q_filter ?q) (match_metadata m)"
    by (simp add: list_all_iff)
  then have "now - 12 * 3600 \<le> meta_updated_at (match_metadata m)"
    by (simp add: filter_holds_updated_at)
  then show "now - 43200 \<le> meta_updated_at (match_metadata m) \<and>
           \<not> meta_updated_at (match_metadata m) < now - 12 * 3600"
    by simp
qed

lemma sample_index_filters: "server_side_filter sample_index_query"
  unfolding server_side_filter_def sample_index_query_def list_all_iff
  by (auto dest: in_set_takeD)

lemma sample_search:
  "semantic_search 1717286400 sample_embed_query sample_index_query
     ''Broken pinecone upsert'' ''rootly'' 5 = [match_new]"
  by (simp add: semantic_search_def sample_index_query_def filter_holds_updated_at
      match_old_def match_new_def)

text \<open>Witness for C3: of the two stored records the sample index returns only the one
  updated 100 seconds before the query.\<close>

theorem search_excludes_older_than_12h_witness:
  "server_side_filter sample_index_query \<and>
   semantic_search 1717286400 sample_embed_query sample_index_query
     ''Broken pinecone upsert'' ''rootly'' 5 = [match_new] \<and>
   1717286400 - 43200 \<le> meta_updated_at (match_metadata match_new)"
  using search_excludes_older_than_12h [OF sample_index_filters,
      of 1717286400 sample_embed_query "''Broken pinecone upsert''" "''rootly''" 5]
    sample_index_filters
  by (simp add: sample_search)

section \<open>Diff Fetcher: no ids\<close>

text \<open>Claim C6 at the empty id list: \<open>get_diffs\<close> makes no request, and what it returns is
  the empty list \<^verbatim>\<open>[]\<close>, not a dict; for one id it returns a dict.\<close>

theorem get_diffs_empty_is_list:
  "get_diffs get owner repo [] = (PyList [], []) \<and>
   get_diffs get owner repo [] \<noteq> (PyDict [], []) \<and>
   get_diffs get owner repo [pid] =
     (PyDict [(pid, PyStr (get (diff_url owner repo pid)))], [GetDiff (diff_url owner repo pid)])"
  by (simp add: get_diffs_def)

section \<open>Relevance Reasoner: what the tool returns\<close>

lemma sample_tool_search:
  "semantic_search (srv_now sample_services) (srv_embed_query sample_services)
     (srv_index_query sample_services) issue ''rootly'' 5 = [match_new]"
  by (simp add: sample_services_def semantic_search_def sample_index_query_def
      filter_holds_updated_at match_old_def match_new_def)

text \<open>Claim C7 at one query: the chat model answers with a text, and
  \<open>find_relevant_diffs\<close> returns a dict with the key \<^verbatim>\<open>messages\<close> holding a list with
  that text, not the text itself.\<close>

theorem find_relevant_diffs_wraps_answer:
  "find_relevant_diffs sample_services ''Broken pinecone upsert'' =
     (Inr (PyDict [(''messages'', PyList [PyStr ''PR 12 changed the upsert call''])]),
      [GetDiff ''https://github.com/ethanbailie/agentic_code_observer/pull/12.diff'']) \<and>
   fst (find_relevant_diffs sample_services ''Broken pinecone upsert'') \<noteq>
     Inr (PyStr ''PR 12 changed the upsert call'')"
proof -
  have ids: "match_id match_new = ''12''"
      "meta_url (match_metadata match_new) = ''https://github.com/o/r/pull/12''"
    by (simp_all add: match_new_def)
  have "find_relevant_diffs sample_services ''Broken pinecone upsert'' =
     (Inr (PyDict [(''messages'', PyList [PyStr ''PR 12 changed the upsert call''])]),
      [GetDiff ''https://github.com/ethanbailie/agentic_code_observer/pull/12.diff''])"
    unfolding find_relevant_diffs_def sample_tool_search
    by (simp add: ids get_diffs_def subscript_def diff_url_def)
       (simp add: sample_services_def)
  then show ?thesis
    by simp
qed

section \<open>Diagnostic Agent: a tool name the agent does not have\<close>

text \<open>The loop of \<^verbatim>\<open>take_action\<close>: what it returns when no requested name is known, what
  a successful run looks like, and where a failure comes from.\<close>

lemma run_tool_calls_all_unknown:
  "\<forall>t \<in> set ts. \<not> known_tool a t \<Longrightarrow>
   run_tool_calls a ts results invoked = Inr (results @ map retry_message ts, invoked)"
  by (induction ts arbitrary: results) (simp_all add: known_tool_def retry_message_def py_str_def)

lemma run_tool_calls_ok:
  "run_tool_calls a ts results invoked = Inr (results', invoked') \<Longrightarrow>
   length results' = length results + length ts \<and>
   take (length results) results' = results \<and>
   (\<forall>i < length ts. \<not> known_tool a (ts ! i) \<longrightarrow>
      results' ! (length results + i) = retry_message (ts ! i)) \<and>
   invoked' = invoked @ map invocation (filter (known_tool a) ts)"
proof (induction ts arbitrary: results invoked)
  case Nil
  then show ?case by auto
next
  case (Cons t ts)
  show ?case
  proof (cases "agent_tools a (tc_name t)")
    case None
    with Cons.prems
    have run: "run_tool_calls a ts (results @ [retry_message t]) invoked = Inr (results', invoked')"
      by (simp add: retry_message_def py_str_def)
    note ih = Cons.IH [OF run]
    have len: "length results' = length results + length (t # ts)"
      using ih by simp
    have pre: "take (length results) results' = results"
    proof -
      have "take (length results) (take (length (results @ [retry_message t])) results') = results"
        using ih by simp
      then show ?thesis by (simp add: min_def)
    qed
    have here: "results' ! length results = retry_message t"
    proof -
      have "take (length (results @ [retry_message t])) results' ! length results =
              (results @ [retry_message t]) ! length results"
        using ih by simp
      then show ?thesis by simp
    qed
    have nth: "\<forall>i < length (t # ts). \<not> known_tool a ((t # ts) ! i) \<longrightarrow>
        results' ! (length results + i) = retry_message ((t # ts) ! i)"
    proof (intro allI impI)
      fix i
      assume i: "i < length (t # ts)" and u: "\<not> known_tool a ((t # ts) ! i)"
      show "results' ! (length results + i) = retry_message ((t # ts) ! i)"
      proof (cases i)
        case 0
        with here show ?thesis by simp
      next
        case (Suc j)
        with i u ih show ?thesis by simp
      qed
    qed
    have unknown: "\<not> known_tool a t"
      using None by (simp add: known_tool_def)
    have inv: "invoked' = invoked @ map invocation (filter (known_tool a) (t # ts))"
      using ih unknown by simp
    from len pre nth inv show ?thesis by blast
  next
    case (Some tool)
    show ?thesis
    proof (cases "tool (tc_args t)")
      case (Inl e)
      with Some Cons.prems show ?thesis by simp
    next
      case (Inr result)
      let ?m = "ToolMessage (tc_id t) (tc_name t) (py_str (agent_repr a) result)"
      from Some Inr Cons.prems
      have run: "run_tool_calls a ts (results @ [?m]) (invoked @ [invocation t]) =
                   Inr (results', invoked')"
        by (simp add: invocation_def)
      note ih = Cons.IH [OF run]
      have len: "length results' = length results + length (t # ts)"
        using ih by simp
      have pre: "take (length results) results' = results"
      proof -
        have "take (length results) (take (length (results @ [?m])) results') = results"
          using ih by simp
        then show ?thesis by (simp add: min_def)
      qed
      have nth: "\<forall>i < length (t # ts). \<not> known_tool a ((t # ts) ! i) \<longrightarrow>
          results' ! (length results + i) = retry_message ((t # ts) ! i)"
      proof (intro allI impI)
        fix i
        assume i: "i < length (t # ts)" and u: "\<not> known_tool a ((t # ts) ! i)"
        show "results' ! (length results + i) = retry_message ((t # ts) ! i)"
        proof (cases i)
          case 0
          with u Some show ?thesis by (simp add: known_tool_def)
        next
          case (Suc j)
          with i u ih show ?thesis by simp
        qed
      qed
      have known: "known_tool a t"
        using Some by (simp add: known_tool_def)
      have inv: "invoked' = invoked @ map invocation (filter (known_tool a) (t # ts))"
        using ih known by simp
      from len pre nth inv show ?thesis by blast
    qed
  qed
qed

lemma run_tool_calls_error:
  "run_tool_calls a ts results invoked = Inl e \<Longrightarrow>
   \<exists>t \<in> set ts. \<exists>tool. agent_tools a (tc_name t) = Some tool \<and> tool (tc_args t) = Inl e"
proof (induction ts arbitrary: results invoked)
  case Nil
  then show ?case by simp
next
  case (Cons t ts)
  show ?case
  proof (cases "agent_tools a (tc_name t)")
    case None
    with Cons.prems Cons.IH show ?thesis by (fastforce)
  next
    case (Some tool)
    show ?thesis
    proof (cases "tool (tc_args t)")
      case (Inl e')
      with Some Cons.prems show ?thesis by auto
    next
      case (Inr result)
      with Some Cons.prems Cons.IH show ?thesis by fastforce
    qed
  qed
qed

text \<open>Claim C4, as stated, fails: in a turn that asks for an unknown tool and for a tool
  of the agent that raises, the exception leaves \<^verbatim>\<open>take_action\<close>; no retry message is
  appended and the step does not lead back to the Reasoning node.\<close>

theorem tool_error_ends_run_counterexample:
  "\<not> known_tool raising_agent (''search_the_web'', PyDict [], ''call_1'') \<and>
   last (messages mixed_state) =
     AIMessage [] [(''search_the_web'', PyDict [], ''call_1''),
                   (''find_relevant_diffs'', PyDict [], ''call_2'')] \<and>
   graph_step raising_agent mixed_state = Inl (ToolError ''boom'')"
  by (simp add: known_tool_def raising_agent_def tc_name_def)
     (simp add: graph_step_def take_action_def last_tool_calls_def mixed_state_def
       tc_name_def tc_args_def)

text \<open>Claim C4, amended: in an Acting step whose last message asks for tool calls, a call
  whose name is not a tool of the agent reaches no tool. The step fails only when a tool
  the agent does have raises, and then the run ends with that exception. When no such tool
  raises, the step succeeds: the tool message "bad tool name, retry" stands at the place
  of each unknown call among the appended messages, only the known calls are invoked, and
  the step leads back to the Reasoning node. In particular, when every requested name is
  unknown the step appends one retry message per call, invokes nothing and goes on at the
  Reasoning node: an unknown name by itself never ends the loop.\<close>

theorem unknown_tool_keeps_loop_running:
  assumes "at_node st = Action"
    and "messages st \<noteq> []"
    and "last (messages st) = AIMessage content tool_calls"
  shows "(graph_step a st = Inl e \<longrightarrow>
            (\<exists>t \<in> set tool_calls. \<exists>tool.
               agent_tools a (tc_name t) = Some tool \<and> tool (tc_args t) = Inl e)) \<and>
         (graph_step a st = Inr st' \<longrightarrow>
            at_node st' = Llm \<and>
            length (messages st') = length (messages st) + length tool_calls \<and>
            take (length (messages st)) (messages st') = messages st \<and>
            (\<forall>i < length tool_calls. \<not> known_tool a (tool_calls ! i) \<longrightarrow>
               messages st' ! (length (messages st) + i) = retry_message (tool_calls ! i)) \<and>
            tools_invoked st' =
              tools_invoked st @ map invocation (filter (known_tool a) tool_calls)) \<and>
         ((\<forall>t \<in> set tool_calls. \<not> known_tool a t) \<longrightarrow>
            graph_step a st =
              Inr (st\<lparr>at_node := Llm,
                       messages := messages st @ map retry_message tool_calls\<rparr>)) \<and>
         ((\<forall>t \<in> set tool_calls. \<forall>tool.
             agent_tools a (tc_name t) = Some tool \<longrightarrow> \<not> isl (tool (tc_args t))) \<longrightarrow>
            (\<exists>next_state. graph_step a st = Inr next_state))"
proof -
  have calls: "last_tool_calls (messages st) = Inr tool_calls"
    using assms(2,3) by (simp add: last_tool_calls_def)
  have step: "graph_step a st =
      (case run_tool_calls a tool_calls [] [] of
         Inl e \<Rightarrow> Inl e
       | Inr (results, invoked) \<Rightarrow>
           Inr (st\<lparr>at_node := Llm, messages := messages st @ results,
                    tools_invoked := tools_invoked st @ invoked\<rparr>))"
    using assms(1) calls by (simp add: graph_step_def take_action_def)
  have fails: "graph_step a st = Inl e \<longrightarrow>
      (\<exists>t \<in> set tool_calls. \<exists>tool.
         agent_tools a (tc_name t) = Some tool \<and> tool (tc_args t) = Inl e)"
  proof
    assume "graph_step a st = Inl e"
    then have "run_tool_calls a tool_calls [] [] = Inl e"
      unfolding step by (simp split: sum.splits prod.splits)
    then show "\<exists>t \<in> set tool_calls. \<exists>tool.
         agent_tools a (tc_name t) = Some tool \<and> tool (tc_args t) = Inl e"
      by (rule run_tool_calls_error)
  qed
  have succeeds: "graph_step a st = Inr st' \<longrightarrow>
      at_node st' = Llm \<and>
      length (messages st') = length (messages st) + length tool_calls \<and>
      take (length (messages st)) (messages st') = messages st \<and>
      (\<forall>i < length tool_calls. \<not> known_tool a (tool_calls ! i) \<longrightarrow>
         messages st' ! (length (messages st) + i) = retry_message (tool_calls ! i)) \<and>
      tools_invoked st' =
        tools_invoked st @ map invocation (filter (known_tool a) tool_calls)"
  proof
    assume ok: "graph_step a st = Inr st'"
    then obtain results invoked where
      run: "run_tool_calls a tool_calls [] [] = Inr (results, invoked)" and
      st': "st' = st\<lparr>at_node := Llm, messages := messages st @ results,
                        tools_invoked := tools_invoked st @ invoked\<rparr>"
      unfolding step by (auto split: sum.splits prod.splits)
    from run_tool_calls_ok [OF run]
    have res: "length results = length tool_calls"
        "\<forall>i < length tool_calls. \<not> known_tool a (tool_calls ! i) \<longrightarrow>
           results ! i = retry_message (tool_calls ! i)"
        "invoked = map invocation (filter (known_tool a) tool_calls)"
      by simp_all
    show "at_node st' = Llm \<and>
      length (messages st') = length (messages st) + length tool_calls \<and>
      take (length (messages st)) (messages st') = messages st \<and>
      (\<forall>i < length tool_calls. \<not> known_tool a (tool_calls ! i) \<longrightarrow>
         messages st' ! (length (messages st) + i) = retry_message (tool_calls ! i)) \<and>
      tools_invoked st' =
        tools_invoked st @ map invocation (filter (known_tool a) tool_calls)"
      unfolding st' using res by (simp add: nth_append)
  qed
  have unknown: "(\<forall>t \<in> set tool_calls. \<not> known_tool a t) \<longrightarrow>
      graph_step a st =
        Inr (st\<lparr>at_node := Llm, messages := messages st @ map retry_message tool_calls\<rparr>)"
  proof
    assume "\<forall>t \<in> set tool_calls. \<not> known_tool a t"
    then have "run_tool_calls a tool_calls [] [] = Inr ([] @ map retry_message tool_calls, [])"
      by (rule run_tool_calls_all_unknown)
    then show "graph_step a st =
        Inr (st\<lparr>at_node := Llm, messages := messages st @ map retry_message tool_calls\<rparr>)"
      unfolding step by simp
  qed
  have no_raise: "(\<forall>t \<in> set tool_calls. \<forall>tool.
        agent_tools a (tc_name t) = Some tool \<longrightarrow> \<not> isl (tool (tc_args t))) \<longrightarrow>
      (\<exists>next_state. graph_step a st = Inr next_state)"
  proof
    assume quiet: "\<forall>t \<in> set tool_calls. \<forall>tool.
        agent_tools a (tc_name t) = Some tool \<longrightarrow> \<not> isl (tool (tc_args t))"
    show "\<exists>next_state. graph_step a st = Inr next_state"
    proof (cases "run_tool_calls a tool_calls [] []")
      case (Inl err)
      from run_tool_calls_error [OF this] quiet show ?thesis
        by fastforce
    next
      case (Inr res)
      then show ?thesis
        unfolding step by (cases res) simp
    qed
  qed
  from fails succeeds unknown no_raise show ?thesis
    by (intro conjI)
qed

text \<open>Witness for C4: the model asks for a tool named \<^verbatim>\<open>search_the_web\<close>, the agent
  has only \<^verbatim>\<open>find_relevant_diffs\<close>; the step appends the retry message, calls no tool
  and goes back to the Reasoning node.\<close>

theorem unknown_tool_keeps_loop_running_witness:
  "graph_step sample_agent sample_state =
     Inr \<lparr>at_node = Llm,
          messages = [HumanMessage ''Broken pinecone upsert'',
                      AIMessage [] [(''search_the_web'', PyDict [], ''call_1'')],
                      ToolMessage ''call_1'' ''search_the_web'' ''bad tool name, retry''],
          tools_invoked = []\<rparr>"
proof -
  let ?calls = "[(''search_the_web'', PyDict [], ''call_1'')]"
  have node: "at_node sample_state = Action"
    by (simp add: sample_state_def)
  have msgs: "messages sample_state \<noteq> []"
    by (simp add: sample_state_def)
  have lst: "last (messages sample_state) = AIMessage [] ?calls"
    by (simp add: sample_state_def)
  have unk: "\<forall>t \<in> set ?calls. \<not> known_tool sample_agent t"
    by (simp add: known_tool_def sample_agent_def tc_name_def)
  from unknown_tool_keeps_loop_running [OF node msgs lst, of sample_agent,
      THEN conjunct2, THEN conjunct2, THEN conjunct1, THEN mp, OF unk]
  show ?thesis
    by (simp add: retry_message_def tc_id_def tc_name_def) (simp add: sample_state_def)
qed

end
